theory Spec2Isabelle
  imports Main "HOL-Library.Multiset"
begin

section \<open>Summary networks of \<^verbatim>\<open>bayesflow/summary_networks.py\<close>\<close>

text \<open>
  The module composes layers into four networks: \<^verbatim>\<open>SetTransformer\<close>, \<^verbatim>\<open>DeepSet\<close> (with
  its deprecated alias \<^verbatim>\<open>InvariantNetwork\<close>), \<^verbatim>\<open>SequentialNetwork\<close> and \<^verbatim>\<open>SplitNetwork\<close>.
  Constructors are modelled with explicit state passing (object identities and the
  warnings emitted so far), exceptions as the left summand of a sum type, layer stacks
  as lists, and forward passes as functions that take the forward functions of the
  primitive layers as arguments.
\<close>

subsection \<open>Exceptions, warnings and the construction state\<close>

datatype error =
  ConfigurationError string
  | ValueError string
  | IndexError
  | TypeError string
  | ShapeError string

datatype warning_category = DeprecationWarning | UserWarning

record warning =
  message :: string
  category :: warning_category
  stacklevel :: nat

text \<open>
  \<open>next_id\<close> is the identity the next constructed layer object receives: two layer
  objects built by two constructor calls are different objects that own different
  parameters. \<open>warnings\<close> collects what \<^verbatim>\<open>warnings.warn\<close> was called with, oldest first.
\<close>

record ctor_state =
  next_id :: nat
  warnings :: "warning list"

type_synonym 'a ctor = "ctor_state \<Rightarrow> (error + 'a) \<times> ctor_state"

definition returnC :: "'a \<Rightarrow> 'a ctor" where
  "returnC a s = (Inr a, s)"

definition raiseC :: "error \<Rightarrow> 'a ctor" where
  "raiseC e s = (Inl e, s)"

definition bindC :: "'a ctor \<Rightarrow> ('a \<Rightarrow> 'b ctor) \<Rightarrow> 'b ctor" where
  "bindC m f s = (case m s of (Inl e, s') \<Rightarrow> (Inl e, s') | (Inr a, s') \<Rightarrow> f a s')"

definition fresh :: "nat ctor" where
  "fresh s = (Inr (next_id s), s\<lparr>next_id := Suc (next_id s)\<rparr>)"

text \<open>\<^verbatim>\<open>warn(message, category, stacklevel)\<close> under Python's default filters: the warning
  is recorded and execution goes on.\<close>

definition warn :: "string \<Rightarrow> warning_category \<Rightarrow> nat \<Rightarrow> unit ctor" where
  "warn msg cat lvl s =
     (Inr (), s\<lparr>warnings := warnings s @ [\<lparr>message = msg, category = cat, stacklevel = lvl\<rparr>]\<rparr>)"

text \<open>The comprehension \<^verbatim>\<open>[C(args) for _ in range(n)]\<close>: \<open>n\<close> constructor calls, one after
  the other, the first exception ending the comprehension.\<close>

fun replicateC :: "nat \<Rightarrow> 'a ctor \<Rightarrow> 'a list ctor" where
  "replicateC 0 m = returnC []"
| "replicateC (Suc n) m = bindC m (\<lambda>a. bindC (replicateC n m) (\<lambda>as. returnC (a # as)))"

text \<open>Exceptions during a forward pass.\<close>

definition bindE :: "error + 'a \<Rightarrow> ('a \<Rightarrow> error + 'b) \<Rightarrow> error + 'b" where
  "bindE m f = (case m of Inl e \<Rightarrow> Inl e | Inr a \<Rightarrow> f a)"

subsection \<open>\<^verbatim>\<open>tf.keras.models.Sequential\<close>\<close>

text \<open>A \<^verbatim>\<open>Sequential\<close> is the list of its layers; \<^verbatim>\<open>add\<close> appends one layer, and calling
  the model feeds the input through the layers in order (an empty stack returns its
  input).\<close>

definition Sequential_add :: "'l list \<Rightarrow> 'l \<Rightarrow> 'l list" where
  "Sequential_add stack layer = stack @ [layer]"

fun Sequential_call :: "('l \<Rightarrow> 't \<Rightarrow> error + 't) \<Rightarrow> 'l list \<Rightarrow> 't \<Rightarrow> error + 't" where
  "Sequential_call f [] x = Inr x"
| "Sequential_call f (l # ls) x = bindE (f l x) (Sequential_call f ls)"

subsection \<open>\<^verbatim>\<open>SetTransformer\<close>\<close>

text \<open>The attention blocks live in \<^verbatim>\<open>bayesflow.attention\<close>. A block object is its identity
  together with the constructor arguments it was built from.\<close>

datatype block_kind = SelfAttention | InducedSelfAttention nat

record ('as, 'ds) attention_block =
  block_id :: nat
  block_kind :: block_kind
  block_input_dim :: nat
  block_attention_settings :: 'as
  block_num_dense_fc :: nat
  block_dense_settings :: 'ds
  block_use_layer_norm :: bool

record ('as, 'ds) pooling_with_attention =
  pool_id :: nat
  pool_summary_dim :: nat
  pool_attention_settings :: 'as
  pool_num_dense_fc :: nat
  pool_dense_settings :: 'ds
  pool_use_layer_norm :: bool
  pool_num_seeds :: nat

text \<open>Modelled from the spec: the constructors \<^verbatim>\<open>SelfAttentionBlock.__init__\<close>,
  \<^verbatim>\<open>InducedSelfAttentionBlock.__init__\<close> and \<^verbatim>\<open>PoolingWithAttention.__init__\<close> of
  \<^verbatim>\<open>bayesflow.attention\<close>, external primitives for which the spec names no failure: each
  builds a new object from its arguments.\<close>

definition SelfAttentionBlock ::
  "nat \<Rightarrow> 'as \<Rightarrow> nat \<Rightarrow> 'ds \<Rightarrow> bool \<Rightarrow> ('as, 'ds) attention_block ctor" where
  "SelfAttentionBlock input_dim attention_settings num_dense_fc dense_settings use_layer_norm =
     bindC fresh (\<lambda>i. returnC
       \<lparr>block_id = i, block_kind = SelfAttention, block_input_dim = input_dim,
        block_attention_settings = attention_settings, block_num_dense_fc = num_dense_fc,
        block_dense_settings = dense_settings, block_use_layer_norm = use_layer_norm\<rparr>)"

definition InducedSelfAttentionBlock ::
  "nat \<Rightarrow> 'as \<Rightarrow> nat \<Rightarrow> 'ds \<Rightarrow> bool \<Rightarrow> nat \<Rightarrow> ('as, 'ds) attention_block ctor" where
  "InducedSelfAttentionBlock input_dim attention_settings num_dense_fc dense_settings
       use_layer_norm num_inducing_points =
     bindC fresh (\<lambda>i. returnC
       \<lparr>block_id = i, block_kind = InducedSelfAttention num_inducing_points,
        block_input_dim = input_dim,
        block_attention_settings = attention_settings, block_num_dense_fc = num_dense_fc,
        block_dense_settings = dense_settings, block_use_layer_norm = use_layer_norm\<rparr>)"

definition PoolingWithAttention ::
  "nat \<Rightarrow> 'as \<Rightarrow> nat \<Rightarrow> 'ds \<Rightarrow> bool \<Rightarrow> nat \<Rightarrow> ('as, 'ds) pooling_with_attention ctor" where
  "PoolingWithAttention summary_dim attention_settings num_dense_fc dense_settings
       use_layer_norm num_seeds =
     bindC fresh (\<lambda>i. returnC
       \<lparr>pool_id = i, pool_summary_dim = summary_dim,
        pool_attention_settings = attention_settings, pool_num_dense_fc = num_dense_fc,
        pool_dense_settings = dense_settings, pool_use_layer_norm = use_layer_norm,
        pool_num_seeds = num_seeds\<rparr>)"

text \<open>The arguments of \<^verbatim>\<open>SetTransformer.__init__\<close>; \<open>st_defaults\<close> fills in the defaults of
  the signature for the two required settings and \<open>input_dim\<close>.\<close>

record ('as, 'ds) st_args =
  input_dim :: nat
  attention_settings :: 'as
  dense_settings :: 'ds
  use_layer_norm :: bool
  num_dense_fc :: nat
  st_summary_dim :: nat
  num_attention_blocks :: nat
  num_inducing_points :: "nat option"
  num_seeds :: nat

definition st_defaults :: "nat \<Rightarrow> 'as \<Rightarrow> 'ds \<Rightarrow> ('as, 'ds) st_args" where
  "st_defaults d att dense =
     \<lparr>input_dim = d, attention_settings = att, dense_settings = dense,
      use_layer_norm = True, num_dense_fc = 2, st_summary_dim = 10,
      num_attention_blocks = 2, num_inducing_points = None, num_seeds = 1\<rparr>"

record ('as, 'ds) SetTransformer_obj =
  attention_blocks :: "('as, 'ds) attention_block list"
  pooler :: "('as, 'ds) pooling_with_attention"

text \<open>The loop \<^verbatim>\<open>for _ in range(num_attention_blocks)\<close> of lines 105 to 112, with the
  iterations still to run as first argument and \<^verbatim>\<open>self.attention_blocks\<close> as third. The
  call of \<^verbatim>\<open>add\<close> on line 112 is indented into the \<^verbatim>\<open>else\<close> branch.\<close>

fun attention_loop ::
  "nat \<Rightarrow> ('as, 'ds) st_args \<Rightarrow> ('as, 'ds) attention_block list \<Rightarrow>
   ('as, 'ds) attention_block list ctor" where
  "attention_loop 0 a stack = returnC stack"
| "attention_loop (Suc k) a stack =
     (case num_inducing_points a of
        Some p \<Rightarrow>
          bindC (InducedSelfAttentionBlock (input_dim a) (attention_settings a) (num_dense_fc a)
                   (dense_settings a) (use_layer_norm a) p)
            (\<lambda>block. attention_loop k a stack)
      | None \<Rightarrow>
          bindC (SelfAttentionBlock (input_dim a) (attention_settings a) (num_dense_fc a)
                   (dense_settings a) (use_layer_norm a))
            (\<lambda>block. attention_loop k a (Sequential_add stack block)))"

definition SetTransformer_init :: "('as, 'ds) st_args \<Rightarrow> ('as, 'ds) SetTransformer_obj ctor" where
  "SetTransformer_init a =
     bindC (attention_loop (num_attention_blocks a) a []) (\<lambda>blocks.
     bindC (PoolingWithAttention (st_summary_dim a) (attention_settings a) (num_dense_fc a)
              (dense_settings a) (use_layer_norm a) (num_seeds a)) (\<lambda>p.
     returnC \<lparr>attention_blocks = blocks, pooler = p\<rparr>))"

text \<open>\<^verbatim>\<open>SetTransformer.call\<close>: the attention stack, then the pooler. The forward functions
  of the blocks and of the pooler are arguments.\<close>

definition SetTransformer_call ::
  "(('as, 'ds) attention_block \<Rightarrow> 't \<Rightarrow> error + 't) \<Rightarrow>
   (('as, 'ds) pooling_with_attention \<Rightarrow> 't \<Rightarrow> error + 'u) \<Rightarrow>
   ('as, 'ds) SetTransformer_obj \<Rightarrow> 't \<Rightarrow> error + 'u" where
  "SetTransformer_call block_call pooler_call self x =
     bindE (Sequential_call block_call (attention_blocks self) x) (\<lambda>out.
     pooler_call (pooler self) out)"

subsection \<open>Layers of Keras and of \<^verbatim>\<open>bayesflow.helper_networks\<close>\<close>

text \<open>\<^verbatim>\<open>Dense(units, activation=...)\<close> and \<^verbatim>\<open>LSTM(units)\<close> of Keras: a new layer object that
  remembers its configuration. \<^verbatim>\<open>LSTM\<close> is built with its default
  \<^verbatim>\<open>return_sequences=False\<close>.\<close>

record dense =
  dense_id :: nat
  units :: nat
  activation :: string

definition Dense :: "nat \<Rightarrow> string \<Rightarrow> dense ctor" where
  "Dense n act = bindC fresh (\<lambda>i. returnC \<lparr>dense_id = i, units = n, activation = act\<rparr>)"

record lstm_layer =
  lstm_id :: nat
  lstm_units :: nat
  return_sequences :: bool

definition LSTM :: "nat \<Rightarrow> lstm_layer ctor" where
  "LSTM n = bindC fresh (\<lambda>i. returnC \<lparr>lstm_id = i, lstm_units = n, return_sequences = False\<rparr>)"

text \<open>\<^verbatim>\<open>pooling_fun\<close> is a string or a callable.\<close>

datatype 'p pooling_fun_arg = PoolName string | PoolCallable 'p

text \<open>The dictionary \<^verbatim>\<open>settings\<close> of \<^verbatim>\<open>DeepSet.__init__\<close>, one field per key.\<close>

record ('d, 'p) settings =
  num_dense_s1 :: nat
  num_dense_s2 :: nat
  num_dense_s3 :: nat
  dense_s1_args :: 'd
  dense_s2_args :: 'd
  dense_s3_args :: 'd
  pooling_fun :: "'p pooling_fun_arg"

record ('d, 'p) equivariant_module =
  equiv_id :: nat
  equiv_settings :: "('d, 'p) settings"

record ('d, 'p) invariant_module =
  inv_id :: nat
  inv_settings :: "('d, 'p) settings"

text \<open>Modelled from the spec: \<^verbatim>\<open>EquivariantModule.__init__\<close> of
  \<^verbatim>\<open>bayesflow.helper_networks\<close>, an external primitive for which the spec names no
  failure of its own: it builds a new module from the settings.\<close>

definition EquivariantModule :: "('d, 'p) settings \<Rightarrow> ('d, 'p) equivariant_module ctor" where
  "EquivariantModule st = bindC fresh (\<lambda>i. returnC \<lparr>equiv_id = i, equiv_settings = st\<rparr>)"

text \<open>Modelled from the spec: \<^verbatim>\<open>InvariantModule.__init__\<close> of \<^verbatim>\<open>bayesflow.helper_networks\<close>,
  the module that pools. The spec: \<^verbatim>\<open>pooling_fun\<close> is one of "mean", "max" or a custom
  learnable pooling network and selects how the invariant module aggregates across the
  element axis; an unknown string is an invalid configuration and must fail at
  construction, not silently default.\<close>

definition recognized_pooling :: "'p pooling_fun_arg \<Rightarrow> bool" where
  "recognized_pooling pf =
     (case pf of PoolName name \<Rightarrow> name = ''mean'' \<or> name = ''max'' | PoolCallable f \<Rightarrow> True)"

definition InvariantModule :: "('d, 'p) settings \<Rightarrow> ('d, 'p) invariant_module ctor" where
  "InvariantModule st =
     (if recognized_pooling (pooling_fun st)
      then bindC fresh (\<lambda>i. returnC \<lparr>inv_id = i, inv_settings = st\<rparr>)
      else raiseC (ConfigurationError ''pooling_fun argument not understood''))"

text \<open>The dictionary \<^verbatim>\<open>conv_settings\<close> with the keys the docstring of
  \<^verbatim>\<open>SequentialNetwork.__init__\<close> lists.\<close>

record 'la conv_settings =
  layer_args :: 'la
  min_kernel_size :: int
  max_kernel_size :: int

record 'la multi_conv =
  conv_id :: nat
  conv_config :: "'la conv_settings"

text \<open>Modelled from the spec: \<^verbatim>\<open>MultiConv1D.__init__\<close> of \<^verbatim>\<open>bayesflow.helper_networks\<close>.
  The spec: inconsistent conv settings (\<^verbatim>\<open>min_kernel_size > max_kernel_size\<close>) are a
  configuration error at construction time.\<close>

definition MultiConv1D :: "'la conv_settings \<Rightarrow> 'la multi_conv ctor" where
  "MultiConv1D cs =
     (if min_kernel_size cs > max_kernel_size cs
      then raiseC (ConfigurationError ''inconsistent conv settings'')
      else bindC fresh (\<lambda>i. returnC \<lparr>conv_id = i, conv_config = cs\<rparr>))"

subsection \<open>\<^verbatim>\<open>DeepSet\<close>\<close>

text \<open>The arguments of \<^verbatim>\<open>DeepSet.__init__\<close> and the defaults of its signature.\<close>

record ('d, 'p) deepset_args =
  arg_summary_dim :: nat
  arg_num_dense_s1 :: nat
  arg_num_dense_s2 :: nat
  arg_num_dense_s3 :: nat
  arg_num_equiv :: nat
  arg_dense_s1_args :: "'d option"
  arg_dense_s2_args :: "'d option"
  arg_dense_s3_args :: "'d option"
  arg_pooling_fun :: "'p pooling_fun_arg"

definition deepset_defaults :: "('d, 'p) deepset_args" where
  "deepset_defaults =
     \<lparr>arg_summary_dim = 10, arg_num_dense_s1 = 2, arg_num_dense_s2 = 2, arg_num_dense_s3 = 2,
      arg_num_equiv = 2, arg_dense_s1_args = None, arg_dense_s2_args = None,
      arg_dense_s3_args = None, arg_pooling_fun = PoolName ''mean''\<rparr>"

text \<open>Lines 197 to 205. \<open>dflt\<close> is \<^verbatim>\<open>defaults.DEFAULT_SETTING_DENSE_INVARIANT\<close>, a constant of
  \<^verbatim>\<open>bayesflow.default_settings\<close>.\<close>

definition deepset_settings :: "'d \<Rightarrow> ('d, 'p) deepset_args \<Rightarrow> ('d, 'p) settings" where
  "deepset_settings dflt a =
     \<lparr>num_dense_s1 = arg_num_dense_s1 a,
      num_dense_s2 = arg_num_dense_s2 a,
      num_dense_s3 = arg_num_dense_s3 a,
      dense_s1_args = (case arg_dense_s1_args a of None \<Rightarrow> dflt | Some d \<Rightarrow> d),
      dense_s2_args = (case arg_dense_s2_args a of None \<Rightarrow> dflt | Some d \<Rightarrow> d),
      dense_s3_args = (case arg_dense_s3_args a of None \<Rightarrow> dflt | Some d \<Rightarrow> d),
      pooling_fun = arg_pooling_fun a\<rparr>"

text \<open>A \<^verbatim>\<open>DeepSet\<close> object. \<open>class_name\<close> is \<^verbatim>\<open>self.__class__.__name__\<close>, and \<open>inv_layer\<close> is
  the attribute \<^verbatim>\<open>self.inv\<close>.\<close>

record ('d, 'p) DeepSet_obj =
  class_name :: string
  equiv_layers :: "('d, 'p) equivariant_module list"
  inv_layer :: "('d, 'p) invariant_module"
  out_layer :: dense
  summary_dim :: nat

definition DeepSet_init ::
  "string \<Rightarrow> 'd \<Rightarrow> ('d, 'p) deepset_args \<Rightarrow> ('d, 'p) DeepSet_obj ctor" where
  "DeepSet_init cls dflt a =
     (let st = deepset_settings dflt a in
      bindC (replicateC (arg_num_equiv a) (EquivariantModule st)) (\<lambda>layers.
      bindC (InvariantModule st) (\<lambda>i.
      bindC (Dense (arg_summary_dim a) ''linear'') (\<lambda>d.
      returnC \<lparr>class_name = cls, equiv_layers = layers, inv_layer = i, out_layer = d,
               summary_dim = arg_summary_dim a\<rparr>))))"

text \<open>\<^verbatim>\<open>DeepSet(...)\<close>: an object of class \<^verbatim>\<open>DeepSet\<close>.\<close>

definition DeepSet :: "'d \<Rightarrow> ('d, 'p) deepset_args \<Rightarrow> ('d, 'p) DeepSet_obj ctor" where
  "DeepSet dflt a = DeepSet_init ''DeepSet'' dflt a"

text \<open>\<^verbatim>\<open>DeepSet.call\<close>, lines 231 to 236.\<close>

definition DeepSet_call ::
  "(('d, 'p) equivariant_module \<Rightarrow> 't \<Rightarrow> error + 't) \<Rightarrow>
   (('d, 'p) invariant_module \<Rightarrow> 't \<Rightarrow> error + 'u) \<Rightarrow>
   (dense \<Rightarrow> 'u \<Rightarrow> error + 'o) \<Rightarrow>
   ('d, 'p) DeepSet_obj \<Rightarrow> 't \<Rightarrow> error + 'o" where
  "DeepSet_call equiv_call inv_call dense_call self x =
     bindE (Sequential_call equiv_call (equiv_layers self) x) (\<lambda>out_equiv.
     bindE (inv_call (inv_layer self) out_equiv) (\<lambda>pooled.
     dense_call (out_layer self) pooled))"

subsection \<open>\<^verbatim>\<open>InvariantNetwork\<close>\<close>

text \<open>\<^verbatim>\<open>object.__init_subclass__\<close>, where \<^verbatim>\<open>super().__init_subclass__(**kwargs)\<close> ends: it
  takes no keyword arguments.\<close>

definition object_init_subclass :: "(string \<times> 'v) list \<Rightarrow> unit ctor" where
  "object_init_subclass kwargs =
     (if kwargs = [] then returnC ()
      else raiseC (TypeError ''__init_subclass__() takes no keyword arguments''))"

text \<open>\<^verbatim>\<open>InvariantNetwork.__init_subclass__\<close>, run when a class with name \<open>cls\<close> is derived
  from \<^verbatim>\<open>InvariantNetwork\<close>.\<close>

definition InvariantNetwork_init_subclass :: "string \<Rightarrow> (string \<times> 'v) list \<Rightarrow> unit ctor" where
  "InvariantNetwork_init_subclass cls kwargs =
     bindC (warn (cls @ '' will be deprecated at some point. Use ``DeepSet`` instead.'')
              DeprecationWarning 2) (\<lambda>_.
     object_init_subclass kwargs)"

text \<open>\<^verbatim>\<open>InvariantNetwork.__init__\<close> for an object whose class has name \<open>cls\<close>.\<close>

definition InvariantNetwork_init ::
  "string \<Rightarrow> 'd \<Rightarrow> ('d, 'p) deepset_args \<Rightarrow> ('d, 'p) DeepSet_obj ctor" where
  "InvariantNetwork_init cls dflt a =
     bindC (warn (cls @ '' will be deprecated. at some point. Use ``DeepSet`` instead.'')
              DeprecationWarning 2) (\<lambda>_.
     DeepSet_init cls dflt a)"

definition InvariantNetwork :: "'d \<Rightarrow> ('d, 'p) deepset_args \<Rightarrow> ('d, 'p) DeepSet_obj ctor" where
  "InvariantNetwork dflt a = InvariantNetwork_init ''InvariantNetwork'' dflt a"

text \<open>\<^verbatim>\<open>InvariantNetwork\<close> defines no \<^verbatim>\<open>call\<close>: the method found on the object is
  \<^verbatim>\<open>DeepSet.call\<close>.\<close>

definition InvariantNetwork_call ::
  "(('d, 'p) equivariant_module \<Rightarrow> 't \<Rightarrow> error + 't) \<Rightarrow>
   (('d, 'p) invariant_module \<Rightarrow> 't \<Rightarrow> error + 'u) \<Rightarrow>
   (dense \<Rightarrow> 'u \<Rightarrow> error + 'o) \<Rightarrow>
   ('d, 'p) DeepSet_obj \<Rightarrow> 't \<Rightarrow> error + 'o" where
  "InvariantNetwork_call = DeepSet_call"

text \<open>\<^verbatim>\<open>C(args)(x)\<close>: construct an object in state \<open>s\<close>, then call it on \<open>x\<close>.\<close>

definition construct_then_call ::
  "'n ctor \<Rightarrow> ('n \<Rightarrow> 'x \<Rightarrow> error + 'o) \<Rightarrow> ctor_state \<Rightarrow> 'x \<Rightarrow> error + 'o" where
  "construct_then_call new call s x = bindE (fst (new s)) (\<lambda>self. call self x)"

subsection \<open>\<^verbatim>\<open>SequentialNetwork\<close>\<close>

record 'la SequentialNetwork_obj =
  net :: "'la multi_conv list"
  lstm :: lstm_layer
  seq_out_layer :: dense
  seq_summary_dim :: nat

text \<open>\<open>dflt\<close> is \<^verbatim>\<open>defaults.DEFAULT_SETTING_MULTI_CONV\<close>.\<close>

definition SequentialNetwork_init ::
  "'la conv_settings \<Rightarrow> nat \<Rightarrow> nat \<Rightarrow> nat \<Rightarrow> 'la conv_settings option \<Rightarrow>
   'la SequentialNetwork_obj ctor" where
  "SequentialNetwork_init dflt summary_dim' num_conv_layers lstm_units' conv_settings' =
     (let cs = (case conv_settings' of None \<Rightarrow> dflt | Some c \<Rightarrow> c) in
      bindC (replicateC num_conv_layers (MultiConv1D cs)) (\<lambda>convs.
      bindC (LSTM lstm_units') (\<lambda>l.
      bindC (Dense summary_dim' ''linear'') (\<lambda>d.
      returnC \<lparr>net = convs, lstm = l, seq_out_layer = d, seq_summary_dim = summary_dim'\<rparr>))))"

definition SequentialNetwork_call ::
  "('la multi_conv \<Rightarrow> 't \<Rightarrow> error + 't) \<Rightarrow>
   (lstm_layer \<Rightarrow> 't \<Rightarrow> error + 'u) \<Rightarrow>
   (dense \<Rightarrow> 'u \<Rightarrow> error + 'o) \<Rightarrow>
   'la SequentialNetwork_obj \<Rightarrow> 't \<Rightarrow> error + 'o" where
  "SequentialNetwork_call conv_call lstm_call dense_call self x =
     bindE (Sequential_call conv_call (net self) x) (\<lambda>out.
     bindE (lstm_call (lstm self) out) (\<lambda>out.
     dense_call (seq_out_layer self) out))"

subsection \<open>\<^verbatim>\<open>SplitNetwork\<close>\<close>

text \<open>A tensor of rank 2 is the list of its rows (one per batch entry), a tensor of rank
  3 the list of its batch entries, each the list of its elements.\<close>

definition has_shape2 :: "nat \<Rightarrow> nat \<Rightarrow> 'a list list \<Rightarrow> bool" where
  "has_shape2 b d t \<longleftrightarrow> length t = b \<and> (\<forall>r \<in> set t. length r = d)"

definition has_shape3 :: "nat \<Rightarrow> nat \<Rightarrow> nat \<Rightarrow> 'a list list list \<Rightarrow> bool" where
  "has_shape3 b n d t \<longleftrightarrow> length t = b \<and> (\<forall>s \<in> set t. has_shape2 n d s)"

text \<open>\<^verbatim>\<open>tf.concat(values, axis=-1)\<close> on tensors of rank 2: row \<open>b\<close> of the result is row \<open>b\<close>
  of each tensor, one after the other. The tensors must agree on the batch axis, and an
  empty list of tensors is refused.\<close>

definition tf_concat_last :: "'a list list list \<Rightarrow> error + 'a list list" where
  "tf_concat_last values =
     (case values of
        [] \<Rightarrow> Inl (ValueError ''concat of an empty list of tensors'')
      | t # rest \<Rightarrow>
          if \<forall>u \<in> set rest. length u = length t
          then Inr (map (\<lambda>b. concat (map (\<lambda>u. u ! b) values)) [0..<length t])
          else Inl (ShapeError ''dimensions of the inputs to concat do not match''))"

text \<open>\<^verbatim>\<open>xs[i]\<close> for an index that is not negative.\<close>

definition getitem :: "'a list \<Rightarrow> nat \<Rightarrow> error + 'a" where
  "getitem xs i = (if i < length xs then Inr (xs ! i) else Inl IndexError)"

text \<open>A comprehension \<^verbatim>\<open>[f(i) for i in ...]\<close> whose body may raise.\<close>

fun mapE :: "('a \<Rightarrow> error + 'b) \<Rightarrow> 'a list \<Rightarrow> error + 'b list" where
  "mapE f [] = Inr []"
| "mapE f (x # xs) = bindE (f x) (\<lambda>y. bindE (mapE f xs) (\<lambda>ys. Inr (y # ys)))"

record ('x, 'xi, 'n) SplitNetwork_obj =
  num_splits :: nat
  split_data_configurator :: "nat \<Rightarrow> 'x \<Rightarrow> 'xi"
  networks :: "'n list"

text \<open>\<^verbatim>\<open>SplitNetwork.__init__\<close> with \<^verbatim>\<open>network_type\<close> and \<^verbatim>\<open>network_kwargs\<close> given.\<close>

definition SplitNetwork_init ::
  "nat \<Rightarrow> (nat \<Rightarrow> 'x \<Rightarrow> 'xi) \<Rightarrow> ('kw \<Rightarrow> 'n ctor) \<Rightarrow> 'kw \<Rightarrow> ('x, 'xi, 'n) SplitNetwork_obj ctor" where
  "SplitNetwork_init n cfg network_type network_kwargs =
     bindC (replicateC n (network_type network_kwargs)) (\<lambda>nets.
     returnC \<lparr>num_splits = n, split_data_configurator = cfg, networks = nets\<rparr>)"

text \<open>\<^verbatim>\<open>SplitNetwork(num_splits, split_data_configurator)\<close>: the signature's defaults
  \<^verbatim>\<open>network_type=InvariantNetwork\<close> and \<^verbatim>\<open>network_kwargs={}\<close>, so that each sub-network is
  built by \<^verbatim>\<open>InvariantNetwork()\<close> with the defaults of \<^verbatim>\<open>DeepSet.__init__\<close>.\<close>

definition SplitNetwork_init_default ::
  "'d \<Rightarrow> nat \<Rightarrow> (nat \<Rightarrow> 'x \<Rightarrow> 'xi) \<Rightarrow> ('x, 'xi, ('d, 'p) DeepSet_obj) SplitNetwork_obj ctor" where
  "SplitNetwork_init_default dflt n cfg =
     SplitNetwork_init n cfg (InvariantNetwork dflt) deepset_defaults"

text \<open>\<^verbatim>\<open>SplitNetwork.call\<close>, lines 386 to 388; \<open>net_call\<close> is the forward pass of a
  sub-network.\<close>

definition SplitNetwork_call ::
  "('n \<Rightarrow> 'xi \<Rightarrow> error + 'a list list) \<Rightarrow> ('x, 'xi, 'n) SplitNetwork_obj \<Rightarrow> 'x \<Rightarrow>
   error + 'a list list" where
  "SplitNetwork_call net_call self x =
     bindE (mapE (\<lambda>i. bindE (getitem (networks self) i) (\<lambda>network.
                       net_call network (split_data_configurator self i x)))
              [0..<num_splits self])
       tf_concat_last"

subsection \<open>Permutations of the set axis\<close>

text \<open>\<open>permute_list p xs\<close> reorders a list by the index map \<open>p\<close>; \<open>permute_set_axis\<close> does so
  in every batch entry of a tensor whose second axis is the set axis.\<close>

definition is_permutation :: "(nat \<Rightarrow> nat) \<Rightarrow> nat \<Rightarrow> bool" where
  "is_permutation p n \<longleftrightarrow> bij_betw p {..<n} {..<n}"

definition permute_list :: "(nat \<Rightarrow> nat) \<Rightarrow> 'v list \<Rightarrow> 'v list" where
  "permute_list p xs = map (\<lambda>i. xs ! p i) [0..<length xs]"

definition permute_set_axis :: "(nat \<Rightarrow> nat) \<Rightarrow> 'v list list \<Rightarrow> 'v list list" where
  "permute_set_axis p x = map (permute_list p) x"

definition set_size :: "nat \<Rightarrow> 'v list list \<Rightarrow> bool" where
  "set_size n x \<longleftrightarrow> (\<forall>s \<in> set x. length s = n)"

text \<open>The contracts of the primitives: an equivariant layer keeps the set size and
  commutes with every permutation of the set axis; an invariant layer gives the same
  result on a permuted input.\<close>

definition equivariant :: "('v list list \<Rightarrow> error + 'v list list) \<Rightarrow> bool" where
  "equivariant f \<longleftrightarrow>
     (\<forall>n p x. is_permutation p n \<and> set_size n x \<longrightarrow>
        (case f x of
           Inl e \<Rightarrow> f (permute_set_axis p x) = Inl e
         | Inr y \<Rightarrow> set_size n y \<and> f (permute_set_axis p x) = Inr (permute_set_axis p y)))"

definition invariant :: "('v list list \<Rightarrow> error + 'u) \<Rightarrow> bool" where
  "invariant f \<longleftrightarrow>
     (\<forall>n p x. is_permutation p n \<and> set_size n x \<longrightarrow> f (permute_set_axis p x) = f x)"

text \<open>The shape contracts of the primitives, for inputs with at least one element per
  set: an equivariant module keeps the batch and element axes, an invariant module
  collapses the element axis, a dense layer with \<open>k\<close> units maps rows to rows of \<open>k\<close>
  features. For the sequence network: a convolution block maps a tensor of rank 3 to a
  tensor of rank 3 with the same batch axis, and a recurrent unit with \<open>k\<close> hidden units
  that returns its final state maps a tensor of rank 3 to rows of \<open>k\<close> features.\<close>

definition keeps_element_axis :: "('a list list list \<Rightarrow> error + 'a list list list) \<Rightarrow> bool" where
  "keeps_element_axis f \<longleftrightarrow>
     (\<forall>b n d t. 1 \<le> n \<and> has_shape3 b n d t \<longrightarrow> (\<exists>d' t'. f t = Inr t' \<and> has_shape3 b n d' t'))"

definition collapses_element_axis :: "('a list list list \<Rightarrow> error + 'a list list) \<Rightarrow> bool" where
  "collapses_element_axis f \<longleftrightarrow>
     (\<forall>b n d t. 1 \<le> n \<and> has_shape3 b n d t \<longrightarrow> (\<exists>d' u. f t = Inr u \<and> has_shape2 b d' u))"

definition projects_to :: "nat \<Rightarrow> ('a list list \<Rightarrow> error + 'a list list) \<Rightarrow> bool" where
  "projects_to k f \<longleftrightarrow> (\<forall>b d u. has_shape2 b d u \<longrightarrow> (\<exists>y. f u = Inr y \<and> has_shape2 b k y))"

definition keeps_batch_axis :: "('a list list list \<Rightarrow> error + 'a list list list) \<Rightarrow> bool" where
  "keeps_batch_axis f \<longleftrightarrow>
     (\<forall>b n d t. has_shape3 b n d t \<longrightarrow> (\<exists>n' d' t'. f t = Inr t' \<and> has_shape3 b n' d' t'))"

definition final_state_of :: "nat \<Rightarrow> ('a list list list \<Rightarrow> error + 'a list list) \<Rightarrow> bool" where
  "final_state_of k f \<longleftrightarrow>
     (\<forall>b n d t. has_shape3 b n d t \<longrightarrow> (\<exists>y. f t = Inr y \<and> has_shape2 b k y))"

text \<open>The part of the feature axis that split \<open>i\<close> contributes to the output of a
  \<^verbatim>\<open>SplitNetwork\<close> whose sub-networks have \<open>k\<close> features each.\<close>

definition split_contribution :: "nat \<Rightarrow> nat \<Rightarrow> 'a list list \<Rightarrow> 'a list list" where
  "split_contribution k i y = map (\<lambda>row. take k (drop (i * k) row)) y"

text \<open>The identities of the layers a \<^verbatim>\<open>DeepSet\<close> object is made of; the trainable
  parameters of the object are those of these layers.\<close>

definition layer_ids :: "('d, 'p) DeepSet_obj \<Rightarrow> nat set" where
  "layer_ids ds = equiv_id ` set (equiv_layers ds) \<union> {inv_id (inv_layer ds), dense_id (out_layer ds)}"

subsection \<open>Sample layers\<close>

text \<open>Forward functions on integer tensors, used to run the networks on concrete inputs.
  The equivariant layer with parameter \<open>k\<close> adds \<open>k\<close> and the sum of all features of the set
  to every feature of every element; the invariant layer with parameter \<open>k\<close> returns,
  for each set, the sum of its features plus \<open>k\<close>, and its number of elements; the dense
  layer has a kernel of ones and no bias; the convolution block adds its parameter to every
  feature; the recurrent unit returns the sum of the features of the sequence in each
  hidden unit.\<close>

definition example_equivariant :: "nat \<Rightarrow> int list list list \<Rightarrow> error + int list list list" where
  "example_equivariant k x =
     Inr (map (\<lambda>s. map (map (\<lambda>c. c + int k + sum_list (map sum_list s))) s) x)"

definition example_invariant :: "nat \<Rightarrow> int list list list \<Rightarrow> error + int list list" where
  "example_invariant k x = Inr (map (\<lambda>s. [sum_list (map sum_list s) + int k, int (length s)]) x)"

definition example_dense :: "nat \<Rightarrow> int list list \<Rightarrow> error + int list list" where
  "example_dense n y = Inr (map (\<lambda>row. replicate n (sum_list row)) y)"

definition example_conv :: "nat \<Rightarrow> int list list list \<Rightarrow> error + int list list list" where
  "example_conv k x = Inr (map (map (map (\<lambda>c. c + int k))) x)"

definition example_lstm :: "nat \<Rightarrow> int list list list \<Rightarrow> error + int list list" where
  "example_lstm n x = Inr (map (\<lambda>s. replicate n (sum_list (map sum_list s))) x)"

text \<open>The split configurator of the docstring of \<^verbatim>\<open>SplitNetwork.__init__\<close>: feature 0 of an
  element names its split and feature 1 is its value; split \<open>i\<close> sees, for every element,
  the selector (1 if the element belongs to split \<open>i\<close>, else 0) and the selected value
  (0 for the elements of other splits).\<close>

definition example_split :: "nat \<Rightarrow> int list list list \<Rightarrow> int list list list" where
  "example_split i x =
     map (map (\<lambda>v. [if v ! 0 = int i then 1 else 0, v ! 1 * (if v ! 0 = int i then 1 else 0)])) x"

definition initial_state :: ctor_state where
  "initial_state = \<lparr>next_id = 0, warnings = []\<rparr>"

section \<open>Properties\<close>

subsection \<open>Construction state\<close>

lemma bindC_returnC [simp]: "bindC (returnC a) f s = f a s"
  by (simp add: bindC_def returnC_def)

lemma bindC_fresh [simp]: "bindC fresh f s = f (next_id s) (s\<lparr>next_id := Suc (next_id s)\<rparr>)"
  by (simp add: bindC_def fresh_def)

lemma bindC_assoc [simp]: "bindC (bindC m f) g = bindC m (\<lambda>x. bindC (f x) g)"
  by (rule ext) (simp add: bindC_def split: prod.splits sum.splits)

lemma bindC_Inr: "m s = (Inr a, s') \<Longrightarrow> bindC m f s = f a s'"
  by (simp add: bindC_def)

lemma bindC_Inl: "m s = (Inl e, s') \<Longrightarrow> bindC m f s = (Inl e, s')"
  by (simp add: bindC_def)

subsection \<open>The attention stack of \<^verbatim>\<open>SetTransformer\<close>\<close>

lemma attention_loop_induced:
  "num_inducing_points a = Some p \<Longrightarrow>
   attention_loop k a stack s = (Inr stack, s\<lparr>next_id := next_id s + k\<rparr>)"
proof (induction k arbitrary: s)
  case 0
  then show ?case by (simp add: returnC_def)
next
  case (Suc k)
  then show ?case by (simp add: InducedSelfAttentionBlock_def)
qed

lemma bindC_attention_loop_induced:
  "num_inducing_points a = Some p \<Longrightarrow>
   bindC (attention_loop k a stack) f s = f stack (s\<lparr>next_id := next_id s + k\<rparr>)"
  by (simp add: bindC_Inr [OF attention_loop_induced])

lemma attention_loop_vanilla:
  "num_inducing_points a = None \<Longrightarrow>
   \<exists>blocks. attention_loop k a stack s = (Inr (stack @ blocks), s\<lparr>next_id := next_id s + k\<rparr>)
     \<and> length blocks = k \<and> (\<forall>b \<in> set blocks. block_kind b = SelfAttention)"
proof (induction k arbitrary: s stack)
  case 0
  then show ?case by (simp add: returnC_def)
next
  case (Suc k)
  let ?b = "\<lparr>block_id = next_id s, block_kind = SelfAttention, block_input_dim = input_dim a,
        block_attention_settings = attention_settings a, block_num_dense_fc = num_dense_fc a,
        block_dense_settings = dense_settings a, block_use_layer_norm = use_layer_norm a\<rparr>"
  from Suc.IH [OF Suc.prems, of "stack @ [?b]" "s\<lparr>next_id := Suc (next_id s)\<rparr>"]
  obtain blocks where
    h: "attention_loop k a (stack @ [?b]) (s\<lparr>next_id := Suc (next_id s)\<rparr>)
          = (Inr ((stack @ [?b]) @ blocks), s\<lparr>next_id := Suc (next_id s) + k\<rparr>)"
      "length blocks = k" "\<forall>b \<in> set blocks. block_kind b = SelfAttention"
    by auto
  have "attention_loop (Suc k) a stack s
          = (Inr (stack @ (?b # blocks)), s\<lparr>next_id := next_id s + Suc k\<rparr>)"
    using Suc.prems h(1) by (simp add: SelfAttentionBlock_def Sequential_add_def)
  moreover have "length (?b # blocks) = Suc k" using h(2) by simp
  moreover have "\<forall>b \<in> set (?b # blocks). block_kind b = SelfAttention" using h(3) by simp
  ultimately show ?case by blast
qed

text \<open>
  C1 (evaluated on the code). \<^verbatim>\<open>SetTransformer\<close> built with
  \<^verbatim>\<open>num_attention_blocks = 2\<close> and \<^verbatim>\<open>num_inducing_points = 16\<close>: both induced
  self-attention blocks are constructed (two identities are used up before the pooler
  gets the third), but none of them is added, so the stack applied in \<^verbatim>\<open>call\<close> is empty
  and does not hold the 2 blocks asked for.
\<close>

theorem SetTransformer_induced_stack_empty:
  "SetTransformer_init
      ((st_defaults 3 ''att'' ''dense'')\<lparr>num_attention_blocks := 2, num_inducing_points := Some 16\<rparr>)
      initial_state
   = (Inr \<lparr>attention_blocks = [],
           pooler = \<lparr>pool_id = 2, pool_summary_dim = 10, pool_attention_settings = ''att'',
                     pool_num_dense_fc = 2, pool_dense_settings = ''dense'',
                     pool_use_layer_norm = True, pool_num_seeds = 1\<rparr>\<rparr>,
      \<lparr>next_id = 3, warnings = []\<rparr>)"
  by (simp add: SetTransformer_init_def st_defaults_def initial_state_def
      bindC_attention_loop_induced [where p = 16] PoolingWithAttention_def returnC_def)

subsection \<open>Construction of \<^verbatim>\<open>DeepSet\<close>\<close>

lemma bindC_raiseC [simp]: "bindC (raiseC e) f s = (Inl e, s)"
  by (simp add: bindC_def raiseC_def)

lemma bindC_warn [simp]:
  "bindC (warn msg cat lvl) f s =
     f () (s\<lparr>warnings := warnings s @ [\<lparr>message = msg, category = cat, stacklevel = lvl\<rparr>]\<rparr>)"
  by (simp add: bindC_def warn_def)

lemma replicateC_EquivariantModule:
  "replicateC n (EquivariantModule st) s =
     (Inr (map (\<lambda>i. \<lparr>equiv_id = next_id s + i, equiv_settings = st\<rparr>) [0..<n]),
      s\<lparr>next_id := next_id s + n\<rparr>)"
proof (induction n arbitrary: s)
  case 0
  then show ?case by (simp add: returnC_def)
next
  case (Suc n)
  have "map (\<lambda>i. \<lparr>equiv_id = next_id s + i, equiv_settings = st\<rparr>) [0..<Suc n]
      = \<lparr>equiv_id = next_id s, equiv_settings = st\<rparr>
        # map (\<lambda>i. \<lparr>equiv_id = Suc (next_id s) + i, equiv_settings = st\<rparr>) [0..<n]"
    by (simp add: upt_conv_Cons map_Suc_upt [symmetric] del: upt_Suc)
  then show ?case
    using Suc.IH [of "s\<lparr>next_id := Suc (next_id s)\<rparr>"]
    by (simp add: EquivariantModule_def bindC_Inr returnC_def del: upt_Suc)
qed

text \<open>What \<^verbatim>\<open>DeepSet.__init__\<close> returns, in closed form: with a recognized pooling
  function the object and the state after \<open>num_equiv + 2\<close> layers were built, otherwise
  the configuration error of the invariant module.\<close>

lemma DeepSet_init_eq:
  "DeepSet_init cls dflt a s =
     (if recognized_pooling (arg_pooling_fun a)
      then (Inr \<lparr>class_name = cls,
                 equiv_layers = map (\<lambda>i. \<lparr>equiv_id = next_id s + i,
                                          equiv_settings = deepset_settings dflt a\<rparr>)
                                  [0..<arg_num_equiv a],
                 inv_layer = \<lparr>inv_id = next_id s + arg_num_equiv a,
                              inv_settings = deepset_settings dflt a\<rparr>,
                 out_layer = \<lparr>dense_id = Suc (next_id s + arg_num_equiv a),
                              units = arg_summary_dim a, activation = ''linear''\<rparr>,
                 summary_dim = arg_summary_dim a\<rparr>,
            s\<lparr>next_id := Suc (Suc (next_id s + arg_num_equiv a))\<rparr>)
      else (Inl (ConfigurationError ''pooling_fun argument not understood''),
            s\<lparr>next_id := next_id s + arg_num_equiv a\<rparr>))"
  by (simp add: DeepSet_init_def Let_def bindC_Inr [OF replicateC_EquivariantModule]
      InvariantModule_def Dense_def returnC_def deepset_settings_def)

text \<open>
  C10. In every construction of \<^verbatim>\<open>DeepSet\<close>, the invariant module and every equivariant
  module receive the one settings dictionary of lines 197 to 205, in which each of
  \<^verbatim>\<open>dense_s1_args\<close>, \<^verbatim>\<open>dense_s2_args\<close> and \<^verbatim>\<open>dense_s3_args\<close> that was passed as \<^verbatim>\<open>None\<close> is
  \<^verbatim>\<open>DEFAULT_SETTING_DENSE_INVARIANT\<close>: the arguments of the equivariant layers get the
  default of the invariant layers too.
\<close>

theorem DeepSet_None_args_default:
  assumes "DeepSet dflt a s = (Inr ds, s')"
  shows "inv_settings (inv_layer ds) = deepset_settings dflt a
       \<and> (\<forall>l \<in> set (equiv_layers ds). equiv_settings l = deepset_settings dflt a)
       \<and> (arg_dense_s1_args a = None \<longrightarrow> dense_s1_args (deepset_settings dflt a) = dflt)
       \<and> (arg_dense_s2_args a = None \<longrightarrow> dense_s2_args (deepset_settings dflt a) = dflt)
       \<and> (arg_dense_s3_args a = None \<longrightarrow> dense_s3_args (deepset_settings dflt a) = dflt)"
proof -
  from assms have ok: "recognized_pooling (arg_pooling_fun a)"
    by (auto simp: DeepSet_def DeepSet_init_eq split: if_splits)
  with assms have "inv_settings (inv_layer ds) = deepset_settings dflt a"
    and "\<forall>l \<in> set (equiv_layers ds). equiv_settings l = deepset_settings dflt a"
    by (auto simp: DeepSet_def DeepSet_init_eq)
  moreover have "arg_dense_s1_args a = None \<longrightarrow> dense_s1_args (deepset_settings dflt a) = dflt"
    and "arg_dense_s2_args a = None \<longrightarrow> dense_s2_args (deepset_settings dflt a) = dflt"
    and "arg_dense_s3_args a = None \<longrightarrow> dense_s3_args (deepset_settings dflt a) = dflt"
    by (simp_all add: deepset_settings_def)
  ultimately show ?thesis by blast
qed

text \<open>\<^verbatim>\<open>DeepSet()\<close> with the default \<^verbatim>\<open>''default''\<close>: all three groups resolve to it, in the
  invariant module and in both equivariant modules.\<close>

theorem DeepSet_None_args_default_witness:
  "dense_s1_args (deepset_settings ''default'' (deepset_defaults :: (string, unit) deepset_args)) = ''default''
   \<and> dense_s2_args (deepset_settings ''default'' (deepset_defaults :: (string, unit) deepset_args)) = ''default''
   \<and> dense_s3_args (deepset_settings ''default'' (deepset_defaults :: (string, unit) deepset_args)) = ''default''
   \<and> (\<exists>ds s'. DeepSet ''default'' (deepset_defaults :: (string, unit) deepset_args) initial_state = (Inr ds, s')
        \<and> dense_s3_args (inv_settings (inv_layer ds)) = ''default''
        \<and> map (\<lambda>l. dense_s3_args (equiv_settings l)) (equiv_layers ds) = [''default'', ''default''])"
proof -
  let ?a = "deepset_defaults :: (string, unit) deepset_args"
  obtain ds s' where c: "DeepSet ''default'' ?a initial_state = (Inr ds, s')"
    by (simp add: DeepSet_def DeepSet_init_eq deepset_defaults_def recognized_pooling_def)
  have n: "arg_dense_s1_args ?a = None" "arg_dense_s2_args ?a = None" "arg_dense_s3_args ?a = None"
    by (simp_all add: deepset_defaults_def)
  have len: "length (equiv_layers ds) = 2"
    using c by (auto simp: DeepSet_def DeepSet_init_eq deepset_defaults_def split: if_splits)
  from DeepSet_None_args_default [OF c] n
  have h: "inv_settings (inv_layer ds) = deepset_settings ''default'' ?a"
    "\<forall>l \<in> set (equiv_layers ds). equiv_settings l = deepset_settings ''default'' ?a"
    "dense_s1_args (deepset_settings ''default'' ?a) = ''default''"
    "dense_s2_args (deepset_settings ''default'' ?a) = ''default''"
    "dense_s3_args (deepset_settings ''default'' ?a) = ''default''"
    by simp_all
  have "map (\<lambda>l. dense_s3_args (equiv_settings l)) (equiv_layers ds)
          = map (\<lambda>l. ''default'') (equiv_layers ds)"
    using h(2,5) by (intro map_cong) simp_all
  also have "\<dots> = [''default'', ''default'']"
    using len by (simp add: map_replicate_const numeral_2_eq_2)
  finally have m: "map (\<lambda>l. dense_s3_args (equiv_settings l)) (equiv_layers ds)
          = [''default'', ''default'']" .
  show ?thesis using c h m by auto
qed

text \<open>
  C3. Constructing a \<^verbatim>\<open>DeepSet\<close> with a \<^verbatim>\<open>pooling_fun\<close> string other than "mean" and "max"
  raises a configuration error during \<^verbatim>\<open>__init__\<close>, whatever the other arguments are:
  no object is returned, so nothing is deferred to \<^verbatim>\<open>call\<close> and no default pooling
  function is substituted. The error comes from the invariant module that line 209
  constructs from the settings.
\<close>

theorem DeepSet_unknown_pooling_raises:
  assumes "name \<noteq> ''mean''" and "name \<noteq> ''max''"
  shows "\<exists>s'. DeepSet dflt (a\<lparr>arg_pooling_fun := PoolName name\<rparr>) s
            = (Inl (ConfigurationError ''pooling_fun argument not understood''), s')"
  using assms by (simp add: DeepSet_def DeepSet_init_eq recognized_pooling_def)

text \<open>\<^verbatim>\<open>DeepSet(pooling_fun="invalid_name")\<close>.\<close>

theorem DeepSet_unknown_pooling_raises_witness:
  "''invalid_name'' \<noteq> ''mean'' \<and> ''invalid_name'' \<noteq> ''max'' \<and>
   (\<exists>s'. DeepSet ''default''
            ((deepset_defaults :: (string, unit) deepset_args)\<lparr>arg_pooling_fun := PoolName ''invalid_name''\<rparr>)
            initial_state
          = (Inl (ConfigurationError ''pooling_fun argument not understood''), s'))"
proof -
  have h: "''invalid_name'' \<noteq> ''mean''" "''invalid_name'' \<noteq> ''max''" by simp_all
  show ?thesis
    using h DeepSet_unknown_pooling_raises [OF h, of "''default''" "deepset_defaults :: (string, unit) deepset_args" initial_state]
    by simp
qed

subsection \<open>The deprecated alias\<close>

lemma InvariantNetwork_eq:
  "InvariantNetwork dflt a s =
     DeepSet_init ''InvariantNetwork'' dflt a
       (s\<lparr>warnings := warnings s @
            [\<lparr>message = ''InvariantNetwork will be deprecated. at some point. Use ``DeepSet`` instead.'',
              category = DeprecationWarning, stacklevel = 2\<rparr>]\<rparr>)"
  by (simp add: InvariantNetwork_def InvariantNetwork_init_def)

lemma DeepSet_call_class_name [simp]:
  "DeepSet_call ec ic dc (class_name_update f d) x = DeepSet_call ec ic dc d x"
  by (simp add: DeepSet_call_def)

text \<open>
  C8. The alias \<^verbatim>\<open>InvariantNetwork\<close> emits one \<^verbatim>\<open>DeprecationWarning\<close> when it is subclassed
  and one when it is instantiated; the warning does not raise (subclassing fails only on
  class keyword arguments, which \<^verbatim>\<open>object.__init_subclass__\<close> refuses). Construction is
  that of \<^verbatim>\<open>DeepSet\<close>, which itself warns nothing: the object differs from the one
  \<^verbatim>\<open>DeepSet(args)\<close> builds in the class name only, the same layer identities are used,
  and \<^verbatim>\<open>InvariantNetwork(args)(x)\<close> is \<^verbatim>\<open>DeepSet(args)(x)\<close> for all arguments, all inputs
  and all forward functions of the layers.
\<close>

theorem InvariantNetwork_delegates_to_DeepSet:
  "warnings (snd (InvariantNetwork_init_subclass cls kwargs s))
     = warnings s @ [\<lparr>message = cls @ '' will be deprecated at some point. Use ``DeepSet`` instead.'',
                      category = DeprecationWarning, stacklevel = 2\<rparr>]
   \<and> fst (InvariantNetwork_init_subclass cls kwargs s)
     = (if kwargs = [] then Inr ()
        else Inl (TypeError ''__init_subclass__() takes no keyword arguments''))
   \<and> warnings (snd (InvariantNetwork dflt a s))
     = warnings s @ [\<lparr>message = ''InvariantNetwork will be deprecated. at some point. Use ``DeepSet`` instead.'',
                      category = DeprecationWarning, stacklevel = 2\<rparr>]
   \<and> warnings (snd (DeepSet dflt a s)) = warnings s
   \<and> next_id (snd (InvariantNetwork dflt a s)) = next_id (snd (DeepSet dflt a s))
   \<and> fst (InvariantNetwork dflt a s)
     = map_sum id (class_name_update (\<lambda>_. ''InvariantNetwork'')) (fst (DeepSet dflt a s))
   \<and> construct_then_call (InvariantNetwork dflt a) (InvariantNetwork_call ec ic dc) s x
     = construct_then_call (DeepSet dflt a) (DeepSet_call ec ic dc) s x"
proof -
  have sub: "warnings (snd (InvariantNetwork_init_subclass cls kwargs s))
     = warnings s @ [\<lparr>message = cls @ '' will be deprecated at some point. Use ``DeepSet`` instead.'',
                      category = DeprecationWarning, stacklevel = 2\<rparr>]"
    "fst (InvariantNetwork_init_subclass cls kwargs s)
     = (if kwargs = [] then Inr ()
        else Inl (TypeError ''__init_subclass__() takes no keyword arguments''))"
    by (simp_all add: InvariantNetwork_init_subclass_def object_init_subclass_def
        returnC_def raiseC_def)
  have st: "warnings (snd (InvariantNetwork dflt a s))
     = warnings s @ [\<lparr>message = ''InvariantNetwork will be deprecated. at some point. Use ``DeepSet`` instead.'',
                      category = DeprecationWarning, stacklevel = 2\<rparr>]"
    "warnings (snd (DeepSet dflt a s)) = warnings s"
    "next_id (snd (InvariantNetwork dflt a s)) = next_id (snd (DeepSet dflt a s))"
    by (simp_all add: InvariantNetwork_eq DeepSet_def DeepSet_init_eq)
  have obj: "fst (InvariantNetwork dflt a s)
     = map_sum id (class_name_update (\<lambda>_. ''InvariantNetwork'')) (fst (DeepSet dflt a s))"
    by (simp add: InvariantNetwork_eq DeepSet_def DeepSet_init_eq)
  have "construct_then_call (InvariantNetwork dflt a) (InvariantNetwork_call ec ic dc) s x
     = construct_then_call (DeepSet dflt a) (DeepSet_call ec ic dc) s x"
    unfolding construct_then_call_def obj InvariantNetwork_call_def
    by (cases "fst (DeepSet dflt a s)") (simp_all add: bindE_def)
  with sub st obj show ?thesis by blast
qed

subsection \<open>The default sub-network of \<^verbatim>\<open>SplitNetwork\<close>\<close>

lemma replicateC_all:
  assumes step: "\<And>s. \<exists>a s'. m s = (Inr a, s') \<and> P a \<and> warnings s' = warnings s @ [w]"
  shows "\<exists>as s'. replicateC n m s = (Inr as, s') \<and> length as = n \<and> (\<forall>a \<in> set as. P a)
           \<and> warnings s' = warnings s @ replicate n w"
proof (induction n arbitrary: s)
  case 0
  then show ?case by (simp add: returnC_def)
next
  case (Suc n)
  from step [of s] obtain a s1 where
    a: "m s = (Inr a, s1)" "P a" "warnings s1 = warnings s @ [w]" by blast
  from Suc.IH [of s1] obtain as s' where
    as: "replicateC n m s1 = (Inr as, s')" "length as = n" "\<forall>a \<in> set as. P a"
      "warnings s' = warnings s1 @ replicate n w" by blast
  have "replicateC (Suc n) m s = (Inr (a # as), s')"
    using a(1) as(1) by (simp add: bindC_def returnC_def)
  moreover have "warnings s' = warnings s @ replicate (Suc n) w"
    using a(3) as(4) by simp
  ultimately show ?case using a(2) as(2,3) by auto
qed

text \<open>
  C4 (as the code has it). With \<^verbatim>\<open>network_type\<close> left out, \<^verbatim>\<open>SplitNetwork(num_splits, f)\<close>
  succeeds and builds \<open>num_splits\<close> objects of class \<^verbatim>\<open>InvariantNetwork\<close>, the deprecated
  subclass of \<^verbatim>\<open>DeepSet\<close>: each is constructed with the default arguments of
  \<^verbatim>\<open>DeepSet.__init__\<close> and is, up to its class name, an object that \<^verbatim>\<open>DeepSet()\<close> builds;
  each construction emits one \<^verbatim>\<open>DeprecationWarning\<close>.
\<close>

theorem SplitNetwork_default_builds_InvariantNetworks:
  fixes dflt :: 'd and s :: ctor_state
  shows
  "\<exists>(sn :: ('x, 'xi, ('d, 'p) DeepSet_obj) SplitNetwork_obj) s'. SplitNetwork_init_default dflt n cfg s = (Inr sn, s')
     \<and> num_splits sn = n \<and> length (networks sn) = n
     \<and> (\<forall>d \<in> set (networks sn).
           class_name d = ''InvariantNetwork''
           \<and> (\<exists>s0. fst (DeepSet dflt deepset_defaults s0) = Inr (d\<lparr>class_name := ''DeepSet''\<rparr>)))
     \<and> warnings s' = warnings s @ replicate n
           \<lparr>message = ''InvariantNetwork will be deprecated. at some point. Use ``DeepSet`` instead.'',
            category = DeprecationWarning, stacklevel = 2\<rparr>"
proof -
  let ?w = "\<lparr>message = ''InvariantNetwork will be deprecated. at some point. Use ``DeepSet`` instead.'',
            category = DeprecationWarning, stacklevel = 2\<rparr>"
  let ?P = "\<lambda>d :: ('d, 'p) DeepSet_obj. class_name d = ''InvariantNetwork''
           \<and> (\<exists>s0. fst (DeepSet dflt deepset_defaults s0) = Inr (d\<lparr>class_name := ''DeepSet''\<rparr>))"
  have step: "\<exists>a s'. InvariantNetwork dflt deepset_defaults s = (Inr a, s') \<and> ?P a
                 \<and> warnings s' = warnings s @ [?w]" for s
  proof -
    have r: "recognized_pooling (arg_pooling_fun (deepset_defaults :: ('d, 'p) deepset_args))"
      by (simp add: deepset_defaults_def recognized_pooling_def)
    obtain a s' where a: "InvariantNetwork dflt (deepset_defaults :: ('d, 'p) deepset_args) s = (Inr a, s')"
      using r by (simp add: InvariantNetwork_eq DeepSet_init_eq)
    have "class_name a = ''InvariantNetwork''"
      using a r by (auto simp: InvariantNetwork_eq DeepSet_init_eq)
    moreover have "fst (DeepSet dflt deepset_defaults s) = Inr (a\<lparr>class_name := ''DeepSet''\<rparr>)"
      using a r by (auto simp: InvariantNetwork_eq DeepSet_def DeepSet_init_eq)
    moreover have "warnings s' = warnings s @ [?w]"
      using a r by (auto simp: InvariantNetwork_eq DeepSet_init_eq)
    ultimately show ?thesis using a by blast
  qed
  from replicateC_all [where m = "InvariantNetwork dflt deepset_defaults" and P = ?P and w = ?w
      and n = n and s = s, OF step]
  obtain nets s' where
    n: "replicateC n (InvariantNetwork dflt deepset_defaults) s = (Inr nets, s')"
      "length nets = n" "\<forall>d \<in> set nets. ?P d" "warnings s' = warnings s @ replicate n ?w"
    by blast
  have "SplitNetwork_init_default dflt n cfg s
          = (Inr \<lparr>num_splits = n, split_data_configurator = cfg, networks = nets\<rparr>, s')"
    using n(1) by (simp add: SplitNetwork_init_default_def SplitNetwork_init_def bindC_def returnC_def)
  then show ?thesis using n(2,3,4) by simp
qed

text \<open>Three splits: three objects of class \<^verbatim>\<open>InvariantNetwork\<close> and three warnings.\<close>

theorem SplitNetwork_default_builds_InvariantNetworks_witness:
  "map class_name (networks (projr (fst
       (SplitNetwork_init_default ''default'' 3 take initial_state
          :: (error + (nat list, nat list, (string, unit) DeepSet_obj) SplitNetwork_obj) \<times> ctor_state))))
     = [''InvariantNetwork'', ''InvariantNetwork'', ''InvariantNetwork'']
   \<and> length (warnings (snd
       (SplitNetwork_init_default ''default'' 3 take initial_state
          :: (error + (nat list, nat list, (string, unit) DeepSet_obj) SplitNetwork_obj) \<times> ctor_state)))
     = 3"
proof -
  let ?r = "SplitNetwork_init_default ''default'' 3 take initial_state
          :: (error + (nat list, nat list, (string, unit) DeepSet_obj) SplitNetwork_obj) \<times> ctor_state"
  from SplitNetwork_default_builds_InvariantNetworks [of "''default''" 3 take initial_state]
  obtain sn :: "(nat list, nat list, (string, unit) DeepSet_obj) SplitNetwork_obj" and s' where
    r: "?r = (Inr sn, s')" and len: "length (networks sn) = 3"
    and cls: "\<forall>d \<in> set (networks sn). class_name d = ''InvariantNetwork''"
    and w: "warnings s' = warnings initial_state @ replicate 3
           \<lparr>message = ''InvariantNetwork will be deprecated. at some point. Use ``DeepSet`` instead.'',
            category = DeprecationWarning, stacklevel = 2\<rparr>"
    by blast
  have "map class_name (networks sn) = map (\<lambda>d. ''InvariantNetwork'') (networks sn)"
    using cls by (intro map_cong) simp_all
  also have "\<dots> = [''InvariantNetwork'', ''InvariantNetwork'', ''InvariantNetwork'']"
    using len by (simp add: map_replicate_const numeral_3_eq_3)
  finally have "map class_name (networks sn)
      = [''InvariantNetwork'', ''InvariantNetwork'', ''InvariantNetwork'']" .
  moreover have "length (warnings s') = 3"
    using w by (simp add: initial_state_def)
  ultimately show ?thesis using r by simp
qed

text \<open>
  C4 (as stated) fails: with two splits the default builds two objects whose class is
  \<^verbatim>\<open>InvariantNetwork\<close> and emits two deprecation warnings, where
  \<^verbatim>\<open>network_type=DeepSet\<close> builds two objects of class \<^verbatim>\<open>DeepSet\<close> and emits none.
\<close>

theorem SplitNetwork_default_type_counterexample:
  "map class_name (networks (projr (fst
       (SplitNetwork_init_default ''default'' 2 drop initial_state
          :: (error + (nat list, nat list, (string, unit) DeepSet_obj) SplitNetwork_obj) \<times> ctor_state))))
     = [''InvariantNetwork'', ''InvariantNetwork'']
   \<and> map class_name (networks (projr (fst
       (SplitNetwork_init 2 drop (DeepSet ''default'') (deepset_defaults :: (string, unit) deepset_args)
          initial_state
          :: (error + (nat list, nat list, (string, unit) DeepSet_obj) SplitNetwork_obj) \<times> ctor_state))))
     = [''DeepSet'', ''DeepSet'']
   \<and> map category (warnings (snd
       (SplitNetwork_init_default ''default'' 2 drop initial_state
          :: (error + (nat list, nat list, (string, unit) DeepSet_obj) SplitNetwork_obj) \<times> ctor_state)))
     = [DeprecationWarning, DeprecationWarning]
   \<and> warnings (snd
       (SplitNetwork_init 2 drop (DeepSet ''default'') (deepset_defaults :: (string, unit) deepset_args)
          initial_state
          :: (error + (nat list, nat list, (string, unit) DeepSet_obj) SplitNetwork_obj) \<times> ctor_state))
     = []"
  by (simp add: SplitNetwork_init_default_def SplitNetwork_init_def numeral_2_eq_2
      InvariantNetwork_eq DeepSet_def DeepSet_init_eq deepset_defaults_def recognized_pooling_def
      bindC_def returnC_def initial_state_def)

subsection \<open>Permutation invariance\<close>

lemma bindE_Inr [simp]: "bindE (Inr a) f = f a"
  by (simp add: bindE_def)

lemma bindE_Inl [simp]: "bindE (Inl e) f = Inl e"
  by (simp add: bindE_def)

lemma is_permutation_less: "is_permutation p n \<Longrightarrow> i < n \<Longrightarrow> p i < n"
  by (auto simp: is_permutation_def bij_betw_def)

lemma length_permute_list [simp]: "length (permute_list p xs) = length xs"
  by (simp add: permute_list_def)

lemma set_size_permute [simp]: "set_size n (permute_set_axis p x) = set_size n x"
  by (auto simp: set_size_def permute_set_axis_def)

lemma equivariant_comp:
  fixes g h :: "'v list list \<Rightarrow> error + 'v list list"
  assumes "equivariant g" and "equivariant h"
  shows "equivariant (\<lambda>x. bindE (g x) h)"
  unfolding equivariant_def
proof (intro allI impI)
  fix n p and x :: "'v list list"
  assume a: "is_permutation p n \<and> set_size n x"
  show "case bindE (g x) h of
          Inl e \<Rightarrow> bindE (g (permute_set_axis p x)) h = Inl e
        | Inr y \<Rightarrow> set_size n y \<and> bindE (g (permute_set_axis p x)) h = Inr (permute_set_axis p y)"
  proof (cases "g x")
    case (Inl e)
    with assms(1) a have "g (permute_set_axis p x) = Inl e"
      by (auto simp: equivariant_def split: sum.splits)
    with Inl show ?thesis by simp
  next
    case (Inr y)
    with assms(1) a have y: "set_size n y" "g (permute_set_axis p x) = Inr (permute_set_axis p y)"
      by (auto simp: equivariant_def split: sum.splits)
    from assms(2) a y(1)
    have "case h y of Inl e \<Rightarrow> h (permute_set_axis p y) = Inl e
          | Inr z \<Rightarrow> set_size n z \<and> h (permute_set_axis p y) = Inr (permute_set_axis p z)"
      unfolding equivariant_def by blast
    with Inr y show ?thesis by (simp split: sum.splits)
  qed
qed

lemma invariant_comp:
  fixes g :: "'v list list \<Rightarrow> error + 'v list list"
  assumes "equivariant g" and "invariant h"
  shows "invariant (\<lambda>x. bindE (g x) h)"
  unfolding invariant_def
proof (intro allI impI)
  fix n p and x :: "'v list list"
  assume a: "is_permutation p n \<and> set_size n x"
  show "bindE (g (permute_set_axis p x)) h = bindE (g x) h"
  proof (cases "g x")
    case (Inl e)
    with assms(1) a have "g (permute_set_axis p x) = Inl e"
      by (auto simp: equivariant_def split: sum.splits)
    with Inl show ?thesis by simp
  next
    case (Inr y)
    with assms(1) a have y: "set_size n y" "g (permute_set_axis p x) = Inr (permute_set_axis p y)"
      by (auto simp: equivariant_def split: sum.splits)
    from assms(2) a y(1) have "h (permute_set_axis p y) = h y"
      unfolding invariant_def by blast
    with Inr y show ?thesis by simp
  qed
qed

lemma invariant_then:
  assumes "invariant h"
  shows "invariant (\<lambda>x. bindE (h x) k)"
  using assms unfolding invariant_def by metis

lemma equivariant_Sequential:
  "\<forall>l \<in> set ls. equivariant (f l) \<Longrightarrow> equivariant (Sequential_call f ls)"
proof (induction ls)
  case Nil
  have "Sequential_call f [] = Inr" by (rule ext) simp
  then show ?case by (simp add: equivariant_def)
next
  case (Cons l ls)
  have "Sequential_call f (l # ls) = (\<lambda>x. bindE (f l x) (Sequential_call f ls))"
    by (rule ext) simp
  with Cons show ?case by (simp add: equivariant_comp)
qed

lemma invariant_DeepSet_call:
  assumes "\<forall>l \<in> set (equiv_layers ds). equivariant (ec l)" and "invariant (ic (inv_layer ds))"
  shows "invariant (DeepSet_call ec ic dc ds)"
proof -
  have "DeepSet_call ec ic dc ds =
     (\<lambda>x. bindE (Sequential_call ec (equiv_layers ds) x)
            (\<lambda>y. bindE (ic (inv_layer ds) y) (dc (out_layer ds))))"
    by (rule ext) (simp add: DeepSet_call_def)
  moreover have "invariant (\<lambda>y. bindE (ic (inv_layer ds) y) (dc (out_layer ds)))"
    using assms(2) by (rule invariant_then)
  ultimately show ?thesis
    using equivariant_Sequential [OF assms(1)] by (simp add: invariant_comp)
qed

lemma invariant_SetTransformer_call:
  assumes "\<forall>b \<in> set (attention_blocks st). equivariant (bc b)" and "invariant (pc (pooler st))"
  shows "invariant (SetTransformer_call bc pc st)"
proof -
  have "SetTransformer_call bc pc st =
     (\<lambda>x. bindE (Sequential_call bc (attention_blocks st) x) (pc (pooler st)))"
    by (rule ext) (simp add: SetTransformer_call_def)
  then show ?thesis
    using equivariant_Sequential [OF assms(1)] assms(2) by (simp add: invariant_comp)
qed

text \<open>
  C2. Permutation invariance of \<^verbatim>\<open>DeepSet\<close> and \<^verbatim>\<open>SetTransformer\<close>. Let \<open>x\<close> be an input whose
  sets have \<open>n\<close> elements and \<open>p\<close> a permutation of \<open>{0..<n}\<close>. If the forward function of
  every equivariant module (of every attention block) in the stack is equivariant and
  that of the invariant module (of the pooler) is invariant, then the network returns on
  the permuted input exactly what it returns on \<open>x\<close>, an output or an exception. The
  dense layer of \<^verbatim>\<open>DeepSet\<close> is arbitrary.
\<close>

theorem permutation_invariance:
  assumes "is_permutation p n" and "set_size n x"
    and "\<forall>l \<in> set (equiv_layers ds). equivariant (ec l)" and "invariant (ic (inv_layer ds))"
    and "\<forall>b \<in> set (attention_blocks st). equivariant (bc b)" and "invariant (pc (pooler st))"
  shows "DeepSet_call ec ic dc ds (permute_set_axis p x) = DeepSet_call ec ic dc ds x
       \<and> SetTransformer_call bc pc st (permute_set_axis p x) = SetTransformer_call bc pc st x"
proof -
  have "invariant (DeepSet_call ec ic dc ds)"
    using assms(3,4) by (rule invariant_DeepSet_call)
  moreover have "invariant (SetTransformer_call bc pc st)"
    using assms(5,6) by (rule invariant_SetTransformer_call)
  ultimately show ?thesis
    using assms(1,2) unfolding invariant_def by blast
qed


lemma permute_list_map:
  assumes "is_permutation p (length s)"
  shows "permute_list p (map f s) = map f (permute_list p s)"
  using is_permutation_less [OF assms] by (simp add: permute_list_def)

lemma mset_permute_list:
  assumes "is_permutation p (length xs)"
  shows "mset (permute_list p xs) = mset xs"
proof -
  let ?n = "length xs"
  have inj: "inj_on p {0..<?n}" and img: "p ` {0..<?n} = {0..<?n}"
    using assms by (auto simp: is_permutation_def bij_betw_def atLeast0LessThan)
  have "mset (map p [0..<?n]) = mset_set (p ` {0..<?n})"
    by (simp add: image_mset_mset_set [OF inj])
  then have idx: "mset (map p [0..<?n]) = mset [0..<?n]"
    by (simp add: img)
  have "permute_list p xs = map ((!) xs) (map p [0..<?n])"
    by (simp add: permute_list_def)
  then have "mset (permute_list p xs) = image_mset ((!) xs) (mset (map p [0..<?n]))"
    by (simp only: mset_map)
  also have "\<dots> = image_mset ((!) xs) (mset [0..<?n])"
    by (simp only: idx)
  also have "\<dots> = mset (map ((!) xs) [0..<?n])"
    by (simp only: mset_map)
  also have "\<dots> = mset xs"
    by (simp only: map_nth)
  finally show ?thesis .
qed

lemma sum_list_permute_list:
  fixes g :: "'a \<Rightarrow> int"
  assumes "is_permutation p (length xs)"
  shows "sum_list (map g (permute_list p xs)) = sum_list (map g xs)"
proof -
  have "sum_list (map g (permute_list p xs)) = sum_mset (image_mset g (mset (permute_list p xs)))"
    by (simp only: mset_map [symmetric] sum_mset_sum_list)
  also have "\<dots> = sum_mset (image_mset g (mset xs))"
    by (simp only: mset_permute_list [OF assms])
  also have "\<dots> = sum_list (map g xs)"
    by (simp only: mset_map [symmetric] sum_mset_sum_list)
  finally show ?thesis .
qed

lemma equivariant_example_equivariant: "equivariant (example_equivariant k)"
  unfolding equivariant_def
proof (intro allI impI)
  fix n p and x :: "int list list list"
  assume a: "is_permutation p n \<and> set_size n x"
  let ?F = "\<lambda>s. map (map (\<lambda>c. c + int k + sum_list (map sum_list s))) s"
  have "?F (permute_list p s) = permute_list p (?F s)" if "s \<in> set x" for s
  proof -
    from that a have "is_permutation p (length s)" by (simp add: set_size_def)
    then show ?thesis by (simp add: sum_list_permute_list permute_list_map)
  qed
  then have "map ?F (permute_set_axis p x) = permute_set_axis p (map ?F x)"
    by (simp add: permute_set_axis_def)
  moreover have "set_size n (map ?F x)"
    using a by (simp add: set_size_def)
  ultimately show "case example_equivariant k x of
       Inl e \<Rightarrow> example_equivariant k (permute_set_axis p x) = Inl e
     | Inr y \<Rightarrow> set_size n y \<and> example_equivariant k (permute_set_axis p x) = Inr (permute_set_axis p y)"
    by (simp add: example_equivariant_def)
qed

lemma invariant_example_invariant: "invariant (example_invariant k)"
  unfolding invariant_def
proof (intro allI impI)
  fix n p and x :: "int list list list"
  assume a: "is_permutation p n \<and> set_size n x"
  have "map (\<lambda>s. [sum_list (map sum_list s) + int k, int (length s)]) (permute_set_axis p x)
      = map (\<lambda>s. [sum_list (map sum_list s) + int k, int (length s)]) x"
    using a by (auto simp: permute_set_axis_def set_size_def sum_list_permute_list)
  then show "example_invariant k (permute_set_axis p x) = example_invariant k x"
    by (simp add: example_invariant_def)
qed

lemma is_permutation_swap: "is_permutation ((-) (Suc 0)) 2"
  unfolding is_permutation_def
  by (rule bij_betw_byWitness [where f' = "(-) (Suc 0)"]) auto


text \<open>The two elements of a set swapped, for \<^verbatim>\<open>DeepSet()\<close> and for a \<^verbatim>\<open>SetTransformer\<close> with
  the default two vanilla blocks, on the sample layers.\<close>

theorem permutation_invariance_witness:
  "is_permutation ((-) (Suc 0)) 2
   \<and> permute_set_axis ((-) (Suc 0)) [[[1, 2], [3, 4 :: int]]] = [[[3, 4], [1, 2]]]
   \<and> DeepSet_call (example_equivariant \<circ> equiv_id) (example_invariant \<circ> inv_id) (example_dense \<circ> units)
        (projr (fst (DeepSet ''default'' (deepset_defaults :: (string, unit) deepset_args) initial_state)))
        [[[3, 4], [1, 2]]]
     = Inr [[258, 258, 258, 258, 258, 258, 258, 258, 258, 258]]
   \<and> DeepSet_call (example_equivariant \<circ> equiv_id) (example_invariant \<circ> inv_id) (example_dense \<circ> units)
        (projr (fst (DeepSet ''default'' (deepset_defaults :: (string, unit) deepset_args) initial_state)))
        [[[1, 2], [3, 4]]]
     = Inr [[258, 258, 258, 258, 258, 258, 258, 258, 258, 258]]
   \<and> SetTransformer_call (example_equivariant \<circ> block_id) (example_invariant \<circ> pool_id)
        (projr (fst (SetTransformer_init (st_defaults 2 ''att'' ''dense'') initial_state)))
        [[[3, 4], [1, 2]]]
     = Inr [[256, 2]]
   \<and> SetTransformer_call (example_equivariant \<circ> block_id) (example_invariant \<circ> pool_id)
        (projr (fst (SetTransformer_init (st_defaults 2 ''att'' ''dense'') initial_state)))
        [[[1, 2], [3, 4]]]
     = Inr [[256, 2]]"
proof -
  let ?x = "[[[1, 2], [3, 4 :: int]]]"
  let ?ds = "projr (fst (DeepSet ''default'' (deepset_defaults :: (string, unit) deepset_args) initial_state))"
  let ?st = "projr (fst (SetTransformer_init (st_defaults 2 ''att'' ''dense'') initial_state))"
  let ?ec = "example_equivariant \<circ> equiv_id :: (string, unit) equivariant_module \<Rightarrow> _"
  let ?ic = "example_invariant \<circ> inv_id :: (string, unit) invariant_module \<Rightarrow> _"
  let ?dc = "example_dense \<circ> units"
  let ?bc = "example_equivariant \<circ> block_id :: (string, string) attention_block \<Rightarrow> _"
  let ?pc = "example_invariant \<circ> pool_id :: (string, string) pooling_with_attention \<Rightarrow> _"
  have p: "is_permutation ((-) (Suc 0)) 2" by (rule is_permutation_swap)
  have x: "set_size 2 ?x" by (simp add: set_size_def)
  have px: "permute_set_axis ((-) (Suc 0)) ?x = [[[3, 4], [1, 2]]]"
    by (simp add: permute_set_axis_def permute_list_def upt_rec)
  have e: "\<forall>l \<in> set (equiv_layers ?ds). equivariant (?ec l)"
    by (simp add: equivariant_example_equivariant)
  have i: "invariant (?ic (inv_layer ?ds))"
    by (simp add: invariant_example_invariant)
  have b: "\<forall>b \<in> set (attention_blocks ?st). equivariant (?bc b)"
    by (simp add: equivariant_example_equivariant)
  have q: "invariant (?pc (pooler ?st))"
    by (simp add: invariant_example_invariant)
  have v: "DeepSet_call ?ec ?ic ?dc ?ds ?x = Inr [[258, 258, 258, 258, 258, 258, 258, 258, 258, 258]]"
    by code_simp
  have w: "SetTransformer_call ?bc ?pc ?st ?x = Inr [[256, 2]]"
    by code_simp
  from permutation_invariance [where p = "(-) (Suc 0)" and n = 2 and x = ?x and ds = ?ds
      and ec = ?ec and ic = ?ic and dc = ?dc and st = ?st and bc = ?bc and pc = ?pc,
      OF p x e i b q] p px v w
  show ?thesis by simp
qed

subsection \<open>Shapes of the forward passes\<close>

lemma Sequential_call_chain:
  assumes "\<forall>l \<in> set ls. \<forall>t. P t \<longrightarrow> (\<exists>t'. f l t = Inr t' \<and> P t')" and "P x"
  shows "\<exists>h. h 0 = x \<and> (\<forall>i < length ls. f (ls ! i) (h i) = Inr (h (Suc i)))
           \<and> (\<forall>i \<le> length ls. P (h i)) \<and> Sequential_call f ls x = Inr (h (length ls))"
  using assms
proof (induction ls arbitrary: x)
  case Nil
  then show ?case by (intro exI [of _ "\<lambda>_. x"]) simp
next
  case (Cons l ls)
  from Cons.prems obtain t' where t': "f l x = Inr t'" "P t'" by auto
  from Cons.prems(1) have "\<forall>l \<in> set ls. \<forall>t. P t \<longrightarrow> (\<exists>t'. f l t = Inr t' \<and> P t')" by simp
  from Cons.IH [OF this t'(2)] obtain h where
    h: "h 0 = t'" "\<forall>i < length ls. f (ls ! i) (h i) = Inr (h (Suc i))"
       "\<forall>i \<le> length ls. P (h i)" "Sequential_call f ls t' = Inr (h (length ls))" by blast
  let ?h = "\<lambda>i. case i of 0 \<Rightarrow> x | Suc j \<Rightarrow> h j"
  have "?h 0 = x" by simp
  moreover have "\<forall>i < length (l # ls). f ((l # ls) ! i) (?h i) = Inr (?h (Suc i))"
    using t'(1) h(1,2) by (auto simp: nth_Cons split: nat.splits)
  moreover have "\<forall>i \<le> length (l # ls). P (?h i)"
    using Cons.prems(2) h(3) by (auto split: nat.splits)
  moreover have "Sequential_call f (l # ls) x = Inr (?h (length (l # ls)))"
    using t'(1) h(4) by simp
  ultimately show ?case by blast
qed

text \<open>
  C6. A \<^verbatim>\<open>DeepSet\<close> constructed with \<open>summary_dim = S\<close> and \<open>num_equiv = k\<close> holds exactly \<open>k\<close>
  equivariant modules and a dense output layer with \<open>S\<close> units and linear activation.
  On an input of shape \<open>(b, n, d)\<close> with \<open>n \<ge> 1\<close>, and with primitives that meet their shape
  contracts, \<^verbatim>\<open>call\<close> succeeds: it applies the \<open>k\<close> equivariant modules one after the other
  (\<open>h i\<close> is the tensor after \<open>i\<close> modules, each of shape \<open>(b, n, _)\<close>), then the invariant
  module, then the dense layer, and returns a tensor of shape \<open>(b, S)\<close>, whatever \<open>n\<close> is.
\<close>

theorem DeepSet_call_shape:
  assumes init: "DeepSet dflt a s = (Inr ds, s')"
    and x: "has_shape3 b n d x" and n: "1 \<le> n"
    and equiv: "\<forall>l \<in> set (equiv_layers ds). keeps_element_axis (ec l)"
    and inv: "collapses_element_axis (ic (inv_layer ds))"
    and dense: "projects_to (units (out_layer ds)) (dc (out_layer ds))"
  shows "length (equiv_layers ds) = arg_num_equiv a
       \<and> units (out_layer ds) = arg_summary_dim a \<and> activation (out_layer ds) = ''linear''
       \<and> (\<exists>h u y. h 0 = x
            \<and> (\<forall>i < arg_num_equiv a. ec (equiv_layers ds ! i) (h i) = Inr (h (Suc i)))
            \<and> (\<forall>i \<le> arg_num_equiv a. \<exists>d'. has_shape3 b n d' (h i))
            \<and> ic (inv_layer ds) (h (arg_num_equiv a)) = Inr u
            \<and> dc (out_layer ds) u = Inr y
            \<and> DeepSet_call ec ic dc ds x = Inr y
            \<and> has_shape2 b (arg_summary_dim a) y)"
proof -
  from init have ok: "recognized_pooling (arg_pooling_fun a)"
    by (auto simp: DeepSet_def DeepSet_init_eq split: if_splits)
  with init have len: "length (equiv_layers ds) = arg_num_equiv a"
    and un: "units (out_layer ds) = arg_summary_dim a"
    and act: "activation (out_layer ds) = ''linear''"
    by (auto simp: DeepSet_def DeepSet_init_eq)
  let ?P = "\<lambda>t. \<exists>d'. has_shape3 b n d' t"
  have step: "\<forall>l \<in> set (equiv_layers ds). \<forall>t. ?P t \<longrightarrow> (\<exists>t'. ec l t = Inr t' \<and> ?P t')"
    using equiv n unfolding keeps_element_axis_def by blast
  have "?P x" using x by blast
  from Sequential_call_chain [where P = ?P, OF step this] obtain h where
    h: "h 0 = x" "\<forall>i < length (equiv_layers ds). ec (equiv_layers ds ! i) (h i) = Inr (h (Suc i))"
       "\<forall>i \<le> length (equiv_layers ds). ?P (h i)"
       "Sequential_call ec (equiv_layers ds) x = Inr (h (length (equiv_layers ds)))" by blast
  from h(3) have "?P (h (arg_num_equiv a))" using len by simp
  with inv n obtain d' u where u: "ic (inv_layer ds) (h (arg_num_equiv a)) = Inr u" "has_shape2 b d' u"
    unfolding collapses_element_axis_def by blast
  from dense u(2) obtain y where y: "dc (out_layer ds) u = Inr y" "has_shape2 b (units (out_layer ds)) y"
    unfolding projects_to_def by blast
  have call: "DeepSet_call ec ic dc ds x = Inr y"
    using h(4) u(1) y(1) len by (simp add: DeepSet_call_def)
  from h(1,2,3) u(1) y call len un
  have "\<exists>h u y. h 0 = x
            \<and> (\<forall>i < arg_num_equiv a. ec (equiv_layers ds ! i) (h i) = Inr (h (Suc i)))
            \<and> (\<forall>i \<le> arg_num_equiv a. \<exists>d'. has_shape3 b n d' (h i))
            \<and> ic (inv_layer ds) (h (arg_num_equiv a)) = Inr u
            \<and> dc (out_layer ds) u = Inr y
            \<and> DeepSet_call ec ic dc ds x = Inr y
            \<and> has_shape2 b (arg_summary_dim a) y"
    by (intro exI [of _ h] exI [of _ u] exI [of _ y]) simp
  with len un act show ?thesis by blast
qed


lemma has_shape3_example_equivariant: "keeps_element_axis (example_equivariant k)"
  by (auto simp: keeps_element_axis_def example_equivariant_def has_shape3_def has_shape2_def)

lemma has_shape2_example_invariant: "collapses_element_axis (example_invariant k)"
  unfolding collapses_element_axis_def
proof (intro allI impI)
  fix b n d and t :: "int list list list"
  assume "1 \<le> n \<and> has_shape3 b n d t"
  then have "has_shape2 b 2 (map (\<lambda>s. [sum_list (map sum_list s) + int k, int (length s)]) t)"
    by (auto simp: has_shape3_def has_shape2_def)
  then show "\<exists>d' u. example_invariant k t = Inr u \<and> has_shape2 b d' u"
    by (auto simp: example_invariant_def)
qed

lemma projects_to_example_dense: "projects_to n (example_dense n)"
  by (auto simp: projects_to_def example_dense_def has_shape2_def)

text \<open>\<^verbatim>\<open>DeepSet()\<close> on an input of shape \<open>(2, 3, 2)\<close> with the sample layers: an output of
  shape \<open>(2, 10)\<close>.\<close>

theorem DeepSet_call_shape_witness:
  "DeepSet_call (example_equivariant \<circ> equiv_id) (example_invariant \<circ> inv_id)
     (example_dense \<circ> units)
     (projr (fst (DeepSet ''default'' (deepset_defaults :: (string, unit) deepset_args)
        initial_state)))
     [[[1, 2], [3, 4], [5, 6]], [[0, 0], [0, 1], [1, 0]]]
   = Inr [[1040, 1040, 1040, 1040, 1040, 1040, 1040, 1040, 1040, 1040],
          [109, 109, 109, 109, 109, 109, 109, 109, 109, 109]]"
proof -
  let ?a = "deepset_defaults :: (string, unit) deepset_args"
  let ?x = "[[[1, 2], [3, 4], [5, 6]], [[0, 0], [0, 1], [1, 0 :: int]]]"
  let ?ec = "example_equivariant \<circ> equiv_id :: (string, unit) equivariant_module \<Rightarrow> _"
  let ?ic = "example_invariant \<circ> inv_id :: (string, unit) invariant_module \<Rightarrow> _"
  let ?dc = "example_dense \<circ> units"
  obtain ds s' where c: "DeepSet ''default'' ?a initial_state = (Inr ds, s')"
    by (simp add: DeepSet_def DeepSet_init_eq deepset_defaults_def recognized_pooling_def)
  then have ds: "projr (fst (DeepSet ''default'' ?a initial_state)) = ds" by simp
  have x: "has_shape3 2 3 2 ?x" by (simp add: has_shape3_def has_shape2_def)
  have n: "1 \<le> (3::nat)" by simp
  have e: "\<forall>l \<in> set (equiv_layers ds). keeps_element_axis (?ec l)"
    by (simp add: has_shape3_example_equivariant)
  have i: "collapses_element_axis (?ic (inv_layer ds))"
    by (simp add: has_shape2_example_invariant)
  have d: "projects_to (units (out_layer ds)) (?dc (out_layer ds))"
    by (simp add: projects_to_example_dense)
  have a: "arg_num_equiv ?a = 2" "arg_summary_dim ?a = 10" by (simp_all add: deepset_defaults_def)
  from DeepSet_call_shape [where ec = ?ec and ic = ?ic and dc = ?dc, OF c x n e i d]
  obtain y where y: "DeepSet_call ?ec ?ic ?dc ds ?x = Inr y" "has_shape2 2 10 y"
    unfolding a by blast
  have "DeepSet_call ?ec ?ic ?dc (projr (fst (DeepSet ''default'' ?a initial_state))) ?x
      = Inr [[1040, 1040, 1040, 1040, 1040, 1040, 1040, 1040, 1040, 1040],
             [109, 109, 109, 109, 109, 109, 109, 109, 109, 109]]"
    by code_simp
  with y show ?thesis unfolding ds by simp
qed

lemma replicateC_MultiConv1D:
  assumes "min_kernel_size cs \<le> max_kernel_size cs"
  shows "replicateC n (MultiConv1D cs) s =
     (Inr (map (\<lambda>i. \<lparr>conv_id = next_id s + i, conv_config = cs\<rparr>) [0..<n]),
      s\<lparr>next_id := next_id s + n\<rparr>)"
proof (induction n arbitrary: s)
  case 0
  then show ?case by (simp add: returnC_def)
next
  case (Suc n)
  have "map (\<lambda>i. \<lparr>conv_id = next_id s + i, conv_config = cs\<rparr>) [0..<Suc n]
      = \<lparr>conv_id = next_id s, conv_config = cs\<rparr>
        # map (\<lambda>i. \<lparr>conv_id = Suc (next_id s) + i, conv_config = cs\<rparr>) [0..<n]"
    by (simp add: upt_conv_Cons map_Suc_upt [symmetric] del: upt_Suc)
  then show ?case
    using assms Suc.IH [of "s\<lparr>next_id := Suc (next_id s)\<rparr>"]
    by (simp add: MultiConv1D_def bindC_Inr returnC_def del: upt_Suc)
qed

lemma replicateC_MultiConv1D_invalid:
  assumes "max_kernel_size cs < min_kernel_size cs"
  shows "replicateC n (MultiConv1D cs) s =
     (if n = 0 then (Inr [], s) else (Inl (ConfigurationError ''inconsistent conv settings''), s))"
  using assms by (cases n) (simp_all add: MultiConv1D_def returnC_def)

lemma SequentialNetwork_init_Inr:
  assumes "SequentialNetwork_init dflt sd c u cs s = (Inr sn, s')"
  shows "length (net sn) = c \<and> lstm_units (lstm sn) = u \<and> \<not> return_sequences (lstm sn)
       \<and> units (seq_out_layer sn) = sd \<and> activation (seq_out_layer sn) = ''linear''"
proof (cases "min_kernel_size (case cs of None \<Rightarrow> dflt | Some c \<Rightarrow> c)
              \<le> max_kernel_size (case cs of None \<Rightarrow> dflt | Some c \<Rightarrow> c)")
  case True
  from assms show ?thesis
    by (auto simp: SequentialNetwork_init_def Let_def bindC_Inr [OF replicateC_MultiConv1D [OF True]]
        LSTM_def Dense_def returnC_def)
next
  case False
  then have "max_kernel_size (case cs of None \<Rightarrow> dflt | Some c \<Rightarrow> c)
             < min_kernel_size (case cs of None \<Rightarrow> dflt | Some c \<Rightarrow> c)" by simp
  note r = replicateC_MultiConv1D_invalid [OF this, of c s]
  show ?thesis
  proof (cases "c = 0")
    case True
    with r have e: "replicateC c (MultiConv1D (case cs of None \<Rightarrow> dflt | Some c \<Rightarrow> c)) s = (Inr [], s)"
      by simp
    from assms True show ?thesis
      by (auto simp: SequentialNetwork_init_def Let_def bindC_Inr [where m = "replicateC c (MultiConv1D (case cs of None \<Rightarrow> dflt | Some c \<Rightarrow> c))", OF e]
          LSTM_def Dense_def returnC_def)
  next
    case False
    with r have e: "replicateC c (MultiConv1D (case cs of None \<Rightarrow> dflt | Some c \<Rightarrow> c)) s
        = (Inl (ConfigurationError ''inconsistent conv settings''), s)"
      by simp
    from assms show ?thesis
      by (simp add: SequentialNetwork_init_def Let_def bindC_Inl [where m = "replicateC c (MultiConv1D (case cs of None \<Rightarrow> dflt | Some c \<Rightarrow> c))", OF e])
  qed
qed

text \<open>
  C7. A \<^verbatim>\<open>SequentialNetwork\<close> constructed with \<open>summary_dim = S\<close>, \<open>num_conv_layers = c\<close> and
  \<open>lstm_units = u\<close> holds exactly \<open>c\<close> convolution blocks, one LSTM with \<open>u\<close> units that does
  not return sequences, and a dense layer with \<open>S\<close> units and linear activation. On an input
  of shape \<open>(b, n, d)\<close>, and with primitives that meet their shape contracts, \<^verbatim>\<open>call\<close>
  succeeds: it applies the \<open>c\<close> convolution blocks one after the other, then the LSTM,
  whose result has shape \<open>(b, u)\<close>, then the dense layer, and returns a tensor of shape
  \<open>(b, S)\<close>.
\<close>

theorem SequentialNetwork_call_shape:
  assumes init: "SequentialNetwork_init dflt sd c u cs s = (Inr sn, s')"
    and x: "has_shape3 b n d x"
    and conv: "\<forall>l \<in> set (net sn). keeps_batch_axis (cc l)"
    and rec: "final_state_of (lstm_units (lstm sn)) (lc (lstm sn))"
    and dense: "projects_to (units (seq_out_layer sn)) (dc (seq_out_layer sn))"
  shows "length (net sn) = c \<and> lstm_units (lstm sn) = u \<and> \<not> return_sequences (lstm sn)
       \<and> units (seq_out_layer sn) = sd \<and> activation (seq_out_layer sn) = ''linear''
       \<and> (\<exists>h v y. h 0 = x
            \<and> (\<forall>i < c. cc (net sn ! i) (h i) = Inr (h (Suc i)))
            \<and> lc (lstm sn) (h c) = Inr v \<and> has_shape2 b u v
            \<and> dc (seq_out_layer sn) v = Inr y
            \<and> SequentialNetwork_call cc lc dc sn x = Inr y
            \<and> has_shape2 b sd y)"
proof -
  note obj = SequentialNetwork_init_Inr [OF init]
  let ?P = "\<lambda>t. \<exists>n' d'. has_shape3 b n' d' t"
  have step: "\<forall>l \<in> set (net sn). \<forall>t. ?P t \<longrightarrow> (\<exists>t'. cc l t = Inr t' \<and> ?P t')"
    using conv unfolding keeps_batch_axis_def by blast
  have "?P x" using x by blast
  from Sequential_call_chain [where P = ?P, OF step this] obtain h where
    h: "h 0 = x" "\<forall>i < length (net sn). cc (net sn ! i) (h i) = Inr (h (Suc i))"
       "\<forall>i \<le> length (net sn). ?P (h i)"
       "Sequential_call cc (net sn) x = Inr (h (length (net sn)))" by blast
  from h(3) obj have "?P (h c)" by auto
  with rec obtain v where v: "lc (lstm sn) (h c) = Inr v" "has_shape2 b (lstm_units (lstm sn)) v"
    unfolding final_state_of_def by blast
  from dense v(2) obtain y where
    y: "dc (seq_out_layer sn) v = Inr y" "has_shape2 b (units (seq_out_layer sn)) y"
    unfolding projects_to_def by blast
  have call: "SequentialNetwork_call cc lc dc sn x = Inr y"
    using h(4) v(1) y(1) obj by (simp add: SequentialNetwork_call_def)
  from h(1,2) v y call obj
  have "\<exists>h v y. h 0 = x
            \<and> (\<forall>i < c. cc (net sn ! i) (h i) = Inr (h (Suc i)))
            \<and> lc (lstm sn) (h c) = Inr v \<and> has_shape2 b u v
            \<and> dc (seq_out_layer sn) v = Inr y
            \<and> SequentialNetwork_call cc lc dc sn x = Inr y
            \<and> has_shape2 b sd y"
    by (intro exI [of _ h] exI [of _ v] exI [of _ y]) simp
  with obj show ?thesis by blast
qed


lemma keeps_batch_axis_example_conv: "keeps_batch_axis (example_conv k)"
  unfolding keeps_batch_axis_def
proof (intro allI impI)
  fix b n d and t :: "int list list list"
  assume "has_shape3 b n d t"
  then have "has_shape3 b n d (map (map (map (\<lambda>c. c + int k))) t)"
    by (auto simp: has_shape3_def has_shape2_def)
  then show "\<exists>n' d' t'. example_conv k t = Inr t' \<and> has_shape3 b n' d' t'"
    by (auto simp: example_conv_def)
qed

lemma final_state_of_example_lstm: "final_state_of n (example_lstm n)"
  by (auto simp: final_state_of_def example_lstm_def has_shape3_def has_shape2_def)

text \<open>\<^verbatim>\<open>SequentialNetwork()\<close> (10 summaries, 2 convolution blocks, 128 LSTM units) on an
  input of shape \<open>(2, 3, 2)\<close> with the sample layers.\<close>

theorem SequentialNetwork_call_shape_witness:
  "SequentialNetwork_call (example_conv \<circ> conv_id) (example_lstm \<circ> lstm_units)
     (example_dense \<circ> units)
     (projr (fst (SequentialNetwork_init
        \<lparr>layer_args = ''args'', min_kernel_size = 1, max_kernel_size = 3\<rparr> 10 2 128 None
        initial_state)))
     [[[1, 2], [3, 4], [5, 6]], [[0, 0], [0, 1], [1, 0]]]
   = Inr [[3456, 3456, 3456, 3456, 3456, 3456, 3456, 3456, 3456, 3456],
          [1024, 1024, 1024, 1024, 1024, 1024, 1024, 1024, 1024, 1024]]"
proof -
  let ?cs = "\<lparr>layer_args = ''args'', min_kernel_size = 1, max_kernel_size = 3\<rparr>"
  let ?x = "[[[1, 2], [3, 4], [5, 6]], [[0, 0], [0, 1], [1, 0 :: int]]]"
  let ?cc = "example_conv \<circ> conv_id :: string multi_conv \<Rightarrow> _"
  let ?lc = "example_lstm \<circ> lstm_units"
  let ?dc = "example_dense \<circ> units"
  have m: "min_kernel_size ?cs \<le> max_kernel_size ?cs" by simp
  obtain sn s' where c: "SequentialNetwork_init ?cs 10 2 128 None initial_state = (Inr sn, s')"
    by (simp add: SequentialNetwork_init_def bindC_Inr [OF replicateC_MultiConv1D [OF m]]
        LSTM_def Dense_def returnC_def)
  then have sn: "projr (fst (SequentialNetwork_init ?cs 10 2 128 None initial_state)) = sn" by simp
  have x: "has_shape3 2 3 2 ?x" by (simp add: has_shape3_def has_shape2_def)
  have e: "\<forall>l \<in> set (net sn). keeps_batch_axis (?cc l)"
    by (simp add: keeps_batch_axis_example_conv)
  have i: "final_state_of (lstm_units (lstm sn)) (?lc (lstm sn))"
    by (simp add: final_state_of_example_lstm)
  have d: "projects_to (units (seq_out_layer sn)) (?dc (seq_out_layer sn))"
    by (simp add: projects_to_example_dense)
  from SequentialNetwork_call_shape [where cc = ?cc and lc = ?lc and dc = ?dc, OF c x e i d]
  obtain y where y: "SequentialNetwork_call ?cc ?lc ?dc sn ?x = Inr y" "has_shape2 2 10 y"
    by blast
  have "SequentialNetwork_call ?cc ?lc ?dc
          (projr (fst (SequentialNetwork_init ?cs 10 2 128 None initial_state))) ?x
      = Inr [[3456, 3456, 3456, 3456, 3456, 3456, 3456, 3456, 3456, 3456],
             [1024, 1024, 1024, 1024, 1024, 1024, 1024, 1024, 1024, 1024]]"
    by code_simp
  with y show ?thesis unfolding sn by simp
qed

subsection \<open>The forward pass of \<^verbatim>\<open>SplitNetwork\<close>\<close>

lemma replicateC_length:
  "replicateC n m s = (Inr as, s') \<Longrightarrow> length as = n"
proof (induction n arbitrary: s as)
  case 0
  then show ?case by (simp add: returnC_def)
next
  case (Suc n)
  then show ?case
    by (auto simp: bindC_def returnC_def split: prod.splits sum.splits)
qed

lemma replicateC_two:
  assumes "replicateC 2 m s = (Inr as, s')"
  shows "\<exists>s1. m s = (Inr (as ! 0), s1) \<and> m s1 = (Inr (as ! 1), s') \<and> length as = 2"
  using assms
  by (auto simp: numeral_2_eq_2 bindC_def returnC_def split: prod.splits sum.splits)

lemma SplitNetwork_init_Inr:
  assumes "SplitNetwork_init n cfg network_type kw s = (Inr sn, s')"
  shows "num_splits sn = n \<and> split_data_configurator sn = cfg \<and> length (networks sn) = n
       \<and> replicateC n (network_type kw) s = (Inr (networks sn), s')"
  using assms replicateC_length [of n "network_type kw" s]
  by (auto simp: SplitNetwork_init_def bindC_def returnC_def split: prod.splits sum.splits)

lemma mapE_Inr:
  "\<forall>i \<in> set xs. f i = Inr (g i) \<Longrightarrow> mapE f xs = Inr (map g xs)"
  by (induction xs) simp_all

lemma tf_concat_last_Inr:
  assumes "values \<noteq> []" and "\<forall>u \<in> set values. length u = b"
  shows "tf_concat_last values = Inr (map (\<lambda>r. concat (map (\<lambda>u. u ! r) values)) [0..<b])"
  using assms by (cases "values") (simp_all add: tf_concat_last_def)

lemma SplitNetwork_call_Inr:
  assumes len: "length (networks sn) = num_splits sn" and pos: "0 < num_splits sn"
    and sub: "\<forall>i < num_splits sn.
        net_call (networks sn ! i) (split_data_configurator sn i x) = Inr (t i) \<and> length (t i) = b"
  shows "SplitNetwork_call net_call sn x
       = Inr (map (\<lambda>r. concat (map (\<lambda>i. t i ! r) [0..<num_splits sn])) [0..<b])"
proof -
  have "\<forall>i \<in> set [0..<num_splits sn].
      bindE (getitem (networks sn) i) (\<lambda>network. net_call network (split_data_configurator sn i x))
      = Inr (t i)"
    using len sub by (simp add: getitem_def)
  then have "mapE (\<lambda>i. bindE (getitem (networks sn) i)
               (\<lambda>network. net_call network (split_data_configurator sn i x))) [0..<num_splits sn]
      = Inr (map t [0..<num_splits sn])"
    by (rule mapE_Inr)
  moreover have "tf_concat_last (map t [0..<num_splits sn])
      = Inr (map (\<lambda>r. concat (map (\<lambda>u. u ! r) (map t [0..<num_splits sn]))) [0..<b])"
    using pos sub by (intro tf_concat_last_Inr) auto
  ultimately show ?thesis
    by (simp add: SplitNetwork_call_def comp_def)
qed

lemma has_shape2_concat:
  assumes "\<forall>i < n. has_shape2 b k (t i)"
  shows "has_shape2 b (n * k) (map (\<lambda>r. concat (map (\<lambda>i. t i ! r) [0..<n])) [0..<b])"
proof -
  have "length (concat (map (\<lambda>i. t i ! r) [0..<n])) = n * k" if "r < b" for r
  proof -
    have "map (\<lambda>i. length (t i ! r)) [0..<n] = map (\<lambda>i. k) [0..<n]"
      using assms that by (intro map_cong) (auto simp: has_shape2_def)
    then have "sum_list (map (\<lambda>i. length (t i ! r)) [0..<n]) = sum_list (map (\<lambda>i. k) [0..<n])"
      by (rule arg_cong)
    also have "\<dots> = n * k"
      by (simp add: sum_list_triv)
    finally show ?thesis
      by (simp add: length_concat comp_def)
  qed
  then show ?thesis by (auto simp: has_shape2_def)
qed

text \<open>
  C5 (as the code has it). For a \<^verbatim>\<open>SplitNetwork\<close> constructed with \<open>num_splits = n \<ge> 1\<close>: if, for each index
  \<open>i < n\<close>, sub-network \<open>i\<close> returns the tensor \<open>t i\<close> of shape \<open>(b, k)\<close> on the sub-input
  \<^verbatim>\<open>split_data_configurator(i, x)\<close>, then \<^verbatim>\<open>call(x)\<close> returns the tensor whose row \<open>r\<close> is row
  \<open>r\<close> of \<open>t 0\<close>, \<open>t 1\<close>, ..., \<open>t (n - 1)\<close>, in this order, one after the other, and that tensor
  has shape \<open>(b, n * k)\<close>.
\<close>

theorem SplitNetwork_call_concat:
  assumes init: "SplitNetwork_init n cfg network_type kw s = (Inr sn, s')"
    and pos: "0 < n"
    and sub: "\<forall>i < n. net_call (networks sn ! i) (cfg i x) = Inr (t i) \<and> has_shape2 b k (t i)"
  shows "length (networks sn) = n
       \<and> SplitNetwork_call net_call sn x
           = Inr (map (\<lambda>r. concat (map (\<lambda>i. t i ! r) [0..<n])) [0..<b])
       \<and> has_shape2 b (n * k) (map (\<lambda>r. concat (map (\<lambda>i. t i ! r) [0..<n])) [0..<b])"
proof -
  note obj = SplitNetwork_init_Inr [OF init]
  have "\<forall>i < num_splits sn.
        net_call (networks sn ! i) (split_data_configurator sn i x) = Inr (t i) \<and> length (t i) = b"
    using sub obj by (simp add: has_shape2_def)
  from SplitNetwork_call_Inr [OF _ _ this] obj pos
  have "SplitNetwork_call net_call sn x
           = Inr (map (\<lambda>r. concat (map (\<lambda>i. t i ! r) [0..<n])) [0..<b])"
    by simp
  moreover have "has_shape2 b (n * k) (map (\<lambda>r. concat (map (\<lambda>i. t i ! r) [0..<n])) [0..<b])"
    using sub by (intro has_shape2_concat) simp
  ultimately show ?thesis using obj by simp
qed


text \<open>Without splits there is nothing to concatenate: \<^verbatim>\<open>tf.concat\<close> refuses the empty
  list.\<close>

lemma SplitNetwork_call_no_splits:
  "num_splits sn = 0 \<Longrightarrow>
   SplitNetwork_call net_call sn x = Inl (ValueError ''concat of an empty list of tensors'')"
  by (simp add: SplitNetwork_call_def tf_concat_last_def)

text \<open>
  C5 (as stated) fails: \<^verbatim>\<open>SplitNetwork(0, f)\<close> is constructed, with an empty list of
  sub-networks, and its \<^verbatim>\<open>call\<close> on a batch of two sets raises in \<^verbatim>\<open>tf.concat\<close> instead of
  returning a tensor of shape \<open>(2, 0)\<close>.
\<close>

theorem SplitNetwork_call_concat_counterexample:
  "\<not> isl (fst (SplitNetwork_init 0 example_split (InvariantNetwork ''default'')
                  (deepset_defaults :: (string, unit) deepset_args) initial_state))
   \<and> networks (projr (fst (SplitNetwork_init 0 example_split (InvariantNetwork ''default'')
                  (deepset_defaults :: (string, unit) deepset_args) initial_state))) = []
   \<and> SplitNetwork_call
        (DeepSet_call (example_equivariant \<circ> equiv_id) (example_invariant \<circ> inv_id)
           (example_dense \<circ> units))
        (projr (fst (SplitNetwork_init 0 example_split (InvariantNetwork ''default'')
                       (deepset_defaults :: (string, unit) deepset_args) initial_state)))
        [[[0, 5], [1, 7], [0, 2]], [[1, 1], [1, 2], [0, 3]]]
     = Inl (ValueError ''concat of an empty list of tensors'')"
  by (simp add: SplitNetwork_init_def returnC_def SplitNetwork_call_no_splits)

text \<open>Two default sub-networks behind the split configurator of the docstring, on a
  batch of two sets of three elements: an output of shape \<open>(2, 20)\<close>.\<close>

theorem SplitNetwork_call_concat_witness:
  "SplitNetwork_call
     (DeepSet_call (example_equivariant \<circ> equiv_id) (example_invariant \<circ> inv_id)
        (example_dense \<circ> units))
     (projr (fst (SplitNetwork_init 2 example_split (InvariantNetwork ''default'')
                    (deepset_defaults :: (string, unit) deepset_args) initial_state)))
     [[[0, 5], [1, 7], [0, 2]], [[1, 1], [1, 2], [0, 3]]]
   = Inr [[452, 452, 452, 452, 452, 452, 452, 452, 452, 452,
           599, 599, 599, 599, 599, 599, 599, 599, 599, 599],
          [207, 207, 207, 207, 207, 207, 207, 207, 207, 207,
           452, 452, 452, 452, 452, 452, 452, 452, 452, 452]]"
proof -
  let ?a = "deepset_defaults :: (string, unit) deepset_args"
  let ?x = "[[[0, 5], [1, 7], [0, 2]], [[1, 1], [1, 2], [0, 3 :: int]]]"
  let ?call = "DeepSet_call (example_equivariant \<circ> equiv_id) (example_invariant \<circ> inv_id)
        (example_dense \<circ> units) :: (string, unit) DeepSet_obj \<Rightarrow> _"
  let ?new = "SplitNetwork_init 2 example_split (InvariantNetwork ''default'') ?a initial_state"
  let ?ua = "[[452, 452, 452, 452, 452, 452, 452, 452, 452, 452],
              [207, 207, 207, 207, 207, 207, 207, 207, 207, 207 :: int]]"
  let ?ub = "[[599, 599, 599, 599, 599, 599, 599, 599, 599, 599],
              [452, 452, 452, 452, 452, 452, 452, 452, 452, 452 :: int]]"
  let ?u = "\<lambda>i :: nat. if i = 0 then ?ua else ?ub"
  obtain sn s' where init: "?new = (Inr sn, s')"
    by (simp add: SplitNetwork_init_def numeral_2_eq_2
        InvariantNetwork_eq DeepSet_init_eq deepset_defaults_def recognized_pooling_def
        bindC_def returnC_def initial_state_def)
  then have sn: "projr (fst ?new) = sn" by simp
  have "?call (networks (projr (fst ?new)) ! 0) (example_split 0 ?x) = Inr ?ua"
    by code_simp
  moreover have "?call (networks (projr (fst ?new)) ! 1) (example_split 1 ?x) = Inr ?ub"
    by code_simp
  ultimately have sub: "\<forall>i < 2. ?call (networks sn ! i) (example_split i ?x) = Inr (?u i)
      \<and> has_shape2 2 10 (?u i)"
    unfolding sn by (simp add: less_2_cases_iff has_shape2_def)
  have pos: "0 < (2::nat)" by simp
  from SplitNetwork_call_concat [where net_call = ?call and t = ?u, OF init pos sub]
  show ?thesis unfolding sn by (simp add: upt_rec)
qed

lemma split_contribution_concat:
  assumes "has_shape2 b k t0" and "has_shape2 b k t1"
  shows "split_contribution k 0 (map (\<lambda>r. concat (map (\<lambda>i. (if i = 0 then t0 else t1) ! r) [0..<2])) [0..<b]) = t0"
    and "split_contribution k 1 (map (\<lambda>r. concat (map (\<lambda>i. (if i = 0 then t0 else t1) ! r) [0..<2])) [0..<b]) = t1"
proof -
  have row: "concat (map (\<lambda>i. (if i = 0 then t0 else t1) ! r) [0..<2]) = t0 ! r @ t1 ! r" for r
    by (simp add: upt_rec)
  have "map (\<lambda>r. take k (t0 ! r @ t1 ! r)) [0..<b] = map (\<lambda>r. t0 ! r) [0..<b]"
    using assms by (intro map_cong) (auto simp: has_shape2_def)
  moreover have "map (\<lambda>r. take k (drop k (t0 ! r @ t1 ! r))) [0..<b] = map (\<lambda>r. t1 ! r) [0..<b]"
    using assms by (intro map_cong) (auto simp: has_shape2_def)
  moreover have "map (\<lambda>r. t0 ! r) [0..<b] = t0" "map (\<lambda>r. t1 ! r) [0..<b] = t1"
    using assms map_nth [of t0] map_nth [of t1] by (simp_all add: has_shape2_def)
  ultimately show
    "split_contribution k 0 (map (\<lambda>r. concat (map (\<lambda>i. (if i = 0 then t0 else t1) ! r) [0..<2])) [0..<b]) = t0"
    "split_contribution k 1 (map (\<lambda>r. concat (map (\<lambda>i. (if i = 0 then t0 else t1) ! r) [0..<2])) [0..<b]) = t1"
    unfolding split_contribution_def row by (simp_all add: comp_def)
qed

text \<open>
  C9. Split independence. In a \<^verbatim>\<open>SplitNetwork\<close> constructed with two splits, the two
  sub-networks are the results of two constructor calls, one after the other. If \<open>x\<close> and
  \<open>x'\<close> are routed to the same sub-input of split 1, and the sub-networks return tensors
  of shape \<open>(b, k)\<close>, then both calls return, and the contribution of split 1 to the output
  (features \<open>k\<close> to \<open>2k - 1\<close>) is on \<open>x\<close> and on \<open>x'\<close> the output \<open>t1\<close> of sub-network 1 on its
  sub-input, whatever split 0 receives and returns.
\<close>

theorem SplitNetwork_split_independence:
  assumes init: "SplitNetwork_init 2 cfg network_type kw s = (Inr sn, s')"
    and same: "cfg 1 x = cfg 1 x'"
    and t0: "net_call (networks sn ! 0) (cfg 0 x) = Inr t0" "has_shape2 b k t0"
    and t0': "net_call (networks sn ! 0) (cfg 0 x') = Inr t0'" "has_shape2 b k t0'"
    and t1: "net_call (networks sn ! 1) (cfg 1 x) = Inr t1" "has_shape2 b k t1"
  shows "(\<exists>s1. network_type kw s = (Inr (networks sn ! 0), s1)
              \<and> network_type kw s1 = (Inr (networks sn ! 1), s'))
       \<and> (\<exists>y y'. SplitNetwork_call net_call sn x = Inr y
              \<and> SplitNetwork_call net_call sn x' = Inr y'
              \<and> split_contribution k 0 y = t0 \<and> split_contribution k 0 y' = t0'
              \<and> split_contribution k 1 y = t1 \<and> split_contribution k 1 y' = t1)"
proof -
  note obj = SplitNetwork_init_Inr [OF init]
  from obj replicateC_two [of "network_type kw" s "networks sn" s']
  have built: "\<exists>s1. network_type kw s = (Inr (networks sn ! 0), s1)
              \<and> network_type kw s1 = (Inr (networks sn ! 1), s')" by blast
  have len: "length (networks sn) = num_splits sn" and pos: "0 < num_splits sn"
    and two: "num_splits sn = 2" and c: "split_data_configurator sn = cfg"
    using obj by simp_all
  let ?y = "\<lambda>u. map (\<lambda>r. concat (map (\<lambda>i. (if i = 0 then u else t1) ! r) [0..<2])) [0..<b]"
  have "\<forall>i < num_splits sn.
      net_call (networks sn ! i) (split_data_configurator sn i x) = Inr (if i = 0 then t0 else t1)
      \<and> length (if i = 0 then t0 else t1) = b"
    using t0 t1 two c by (auto simp: has_shape2_def less_2_cases_iff)
  from SplitNetwork_call_Inr [OF len pos this]
  have y: "SplitNetwork_call net_call sn x = Inr (?y t0)"
    unfolding two by simp
  have "\<forall>i < num_splits sn.
      net_call (networks sn ! i) (split_data_configurator sn i x') = Inr (if i = 0 then t0' else t1)
      \<and> length (if i = 0 then t0' else t1) = b"
    using t0' t1 same two c by (auto simp: has_shape2_def less_2_cases_iff)
  from SplitNetwork_call_Inr [OF len pos this]
  have y': "SplitNetwork_call net_call sn x' = Inr (?y t0')"
    unfolding two by simp
  from y y' split_contribution_concat [OF t0(2) t1(2)] split_contribution_concat [OF t0'(2) t1(2)]
  have "\<exists>y y'. SplitNetwork_call net_call sn x = Inr y
              \<and> SplitNetwork_call net_call sn x' = Inr y'
              \<and> split_contribution k 0 y = t0 \<and> split_contribution k 0 y' = t0'
              \<and> split_contribution k 1 y = t1 \<and> split_contribution k 1 y' = t1"
    by (intro exI [of _ "?y t0"] exI [of _ "?y t0'"]) simp
  with built show ?thesis by blast
qed


text \<open>Two inputs that differ in the values of the elements of split 0 only: the
  contribution of split 0 changes, that of split 1 does not.\<close>

theorem SplitNetwork_split_independence_witness:
  "example_split 1 [[[0, 5], [1, 7], [0, 2]], [[1, 1], [1, 2], [0, 3]]]
     = example_split 1 [[[0, 9], [1, 7], [0, 4]], [[1, 1], [1, 2], [0, 8]]]
   \<and> split_contribution 10 0 (projr (SplitNetwork_call
        (DeepSet_call (example_equivariant \<circ> equiv_id) (example_invariant \<circ> inv_id)
           (example_dense \<circ> units))
        (projr (fst (SplitNetwork_init 2 example_split (InvariantNetwork ''default'')
                       (deepset_defaults :: (string, unit) deepset_args) initial_state)))
        [[[0, 5], [1, 7], [0, 2]], [[1, 1], [1, 2], [0, 3]]]))
     = [[452, 452, 452, 452, 452, 452, 452, 452, 452, 452],
        [207, 207, 207, 207, 207, 207, 207, 207, 207, 207]]
   \<and> split_contribution 10 0 (projr (SplitNetwork_call
        (DeepSet_call (example_equivariant \<circ> equiv_id) (example_invariant \<circ> inv_id)
           (example_dense \<circ> units))
        (projr (fst (SplitNetwork_init 2 example_split (InvariantNetwork ''default'')
                       (deepset_defaults :: (string, unit) deepset_args) initial_state)))
        [[[0, 9], [1, 7], [0, 4]], [[1, 1], [1, 2], [0, 8]]]))
     = [[746, 746, 746, 746, 746, 746, 746, 746, 746, 746],
        [452, 452, 452, 452, 452, 452, 452, 452, 452, 452]]
   \<and> split_contribution 10 1 (projr (SplitNetwork_call
        (DeepSet_call (example_equivariant \<circ> equiv_id) (example_invariant \<circ> inv_id)
           (example_dense \<circ> units))
        (projr (fst (SplitNetwork_init 2 example_split (InvariantNetwork ''default'')
                       (deepset_defaults :: (string, unit) deepset_args) initial_state)))
        [[[0, 5], [1, 7], [0, 2]], [[1, 1], [1, 2], [0, 3]]]))
     = [[599, 599, 599, 599, 599, 599, 599, 599, 599, 599],
        [452, 452, 452, 452, 452, 452, 452, 452, 452, 452]]
   \<and> split_contribution 10 1 (projr (SplitNetwork_call
        (DeepSet_call (example_equivariant \<circ> equiv_id) (example_invariant \<circ> inv_id)
           (example_dense \<circ> units))
        (projr (fst (SplitNetwork_init 2 example_split (InvariantNetwork ''default'')
                       (deepset_defaults :: (string, unit) deepset_args) initial_state)))
        [[[0, 9], [1, 7], [0, 4]], [[1, 1], [1, 2], [0, 8]]]))
     = [[599, 599, 599, 599, 599, 599, 599, 599, 599, 599],
        [452, 452, 452, 452, 452, 452, 452, 452, 452, 452]]"
proof -
  let ?a = "deepset_defaults :: (string, unit) deepset_args"
  let ?x = "[[[0, 5], [1, 7], [0, 2]], [[1, 1], [1, 2], [0, 3 :: int]]]"
  let ?x' = "[[[0, 9], [1, 7], [0, 4]], [[1, 1], [1, 2], [0, 8 :: int]]]"
  let ?call = "DeepSet_call (example_equivariant \<circ> equiv_id) (example_invariant \<circ> inv_id)
        (example_dense \<circ> units) :: (string, unit) DeepSet_obj \<Rightarrow> _"
  let ?new = "SplitNetwork_init 2 example_split (InvariantNetwork ''default'') ?a initial_state"
  let ?ua = "[[452, 452, 452, 452, 452, 452, 452, 452, 452, 452],
              [207, 207, 207, 207, 207, 207, 207, 207, 207, 207 :: int]]"
  let ?ua' = "[[746, 746, 746, 746, 746, 746, 746, 746, 746, 746],
              [452, 452, 452, 452, 452, 452, 452, 452, 452, 452 :: int]]"
  let ?ub = "[[599, 599, 599, 599, 599, 599, 599, 599, 599, 599],
              [452, 452, 452, 452, 452, 452, 452, 452, 452, 452 :: int]]"
  obtain sn s' where init: "?new = (Inr sn, s')"
    by (simp add: SplitNetwork_init_def numeral_2_eq_2
        InvariantNetwork_eq DeepSet_init_eq deepset_defaults_def recognized_pooling_def
        bindC_def returnC_def initial_state_def)
  then have sn: "projr (fst ?new) = sn" by simp
  have same: "example_split 1 ?x = example_split 1 ?x'"
    by (simp add: example_split_def)
  have "?call (networks (projr (fst ?new)) ! 0) (example_split 0 ?x) = Inr ?ua"
    by code_simp
  then have a: "?call (networks sn ! 0) (example_split 0 ?x) = Inr ?ua"
    unfolding sn .
  have "?call (networks (projr (fst ?new)) ! 0) (example_split 0 ?x') = Inr ?ua'"
    by code_simp
  then have a': "?call (networks sn ! 0) (example_split 0 ?x') = Inr ?ua'"
    unfolding sn .
  have "?call (networks (projr (fst ?new)) ! 1) (example_split 1 ?x) = Inr ?ub"
    by code_simp
  then have b: "?call (networks sn ! 1) (example_split 1 ?x) = Inr ?ub"
    unfolding sn .
  have sa: "has_shape2 2 10 ?ua" and sa': "has_shape2 2 10 ?ua'" and sb: "has_shape2 2 10 ?ub"
    by (simp_all add: has_shape2_def)
  from SplitNetwork_split_independence [where net_call = ?call, OF init same a sa a' sa' b sb]
  obtain y y' where "SplitNetwork_call ?call sn ?x = Inr y"
    "SplitNetwork_call ?call sn ?x' = Inr y'"
    "split_contribution 10 0 y = ?ua" "split_contribution 10 0 y' = ?ua'"
    "split_contribution 10 1 y = ?ub" "split_contribution 10 1 y' = ?ub"
    by blast
  with same show ?thesis unfolding sn by simp
qed

subsection \<open>Sub-networks own their layers\<close>

lemma replicateC_fresh_ids:
  assumes step: "\<And>s a s'. m s = (Inr a, s') \<Longrightarrow>
        next_id s \<le> next_id s' \<and> ids a \<subseteq> {next_id s..<next_id s'}"
    and run: "replicateC n m s = (Inr as, s')"
  shows "next_id s \<le> next_id s'
       \<and> (\<forall>i < length as. ids (as ! i) \<subseteq> {next_id s..<next_id s'})
       \<and> (\<forall>i j. i < j \<and> j < length as \<longrightarrow> ids (as ! i) \<inter> ids (as ! j) = {})"
  using run
proof (induction n arbitrary: s as)
  case 0
  then show ?case by (simp add: returnC_def)
next
  case (Suc n)
  from Suc.prems obtain a s1 bs where
    a: "m s = (Inr a, s1)" and bs: "replicateC n m s1 = (Inr bs, s')" and as: "as = a # bs"
    by (auto simp: bindC_def returnC_def split: prod.splits sum.splits)
  from step [OF a] have a1: "next_id s \<le> next_id s1" and a2: "ids a \<subseteq> {next_id s..<next_id s1}"
    by simp_all
  from Suc.IH [OF bs] have b1: "next_id s1 \<le> next_id s'"
    and b2: "\<forall>i < length bs. ids (bs ! i) \<subseteq> {next_id s1..<next_id s'}"
    and b3: "\<forall>i j. i < j \<and> j < length bs \<longrightarrow> ids (bs ! i) \<inter> ids (bs ! j) = {}"
    by simp_all
  have "next_id s \<le> next_id s'" using a1 b1 by simp
  moreover have "\<forall>i < length as. ids (as ! i) \<subseteq> {next_id s..<next_id s'}"
  proof (intro allI impI)
    fix i assume i: "i < length as"
    show "ids (as ! i) \<subseteq> {next_id s..<next_id s'}"
    proof (cases i)
      case 0
      have "{next_id s..<next_id s1} \<subseteq> {next_id s..<next_id s'}" using b1 by auto
      with a2 have "ids a \<subseteq> {next_id s..<next_id s'}" by (rule subset_trans)
      then show ?thesis unfolding as 0 by simp
    next
      case (Suc i')
      with i have "i' < length bs" unfolding as by simp
      with b2 have "ids (bs ! i') \<subseteq> {next_id s1..<next_id s'}" by simp
      moreover have "{next_id s1..<next_id s'} \<subseteq> {next_id s..<next_id s'}" using a1 by auto
      ultimately have "ids (bs ! i') \<subseteq> {next_id s..<next_id s'}" by (rule subset_trans)
      then show ?thesis unfolding as Suc by simp
    qed
  qed
  moreover have "\<forall>i j. i < j \<and> j < length as \<longrightarrow> ids (as ! i) \<inter> ids (as ! j) = {}"
  proof (intro allI impI)
    fix i j assume ij: "i < j \<and> j < length as"
    then obtain j' where j: "j = Suc j'" "j' < length bs" unfolding as by (cases j) auto
    show "ids (as ! i) \<inter> ids (as ! j) = {}"
    proof (cases i)
      case 0
      from b2 j(2) have "ids (bs ! j') \<subseteq> {next_id s1..<next_id s'}" by simp
      moreover have "{next_id s..<next_id s1} \<inter> {next_id s1..<next_id s'} = {}" by auto
      ultimately have "ids a \<inter> ids (bs ! j') = {}" using a2 by blast
      then show ?thesis unfolding as 0 j(1) by simp
    next
      case (Suc i')
      with ij j have "i' < j' \<and> j' < length bs" by simp
      with b3 show ?thesis unfolding as Suc j(1) by simp
    qed
  qed
  ultimately show ?case by blast
qed

lemma DeepSet_init_fresh_ids:
  assumes "DeepSet_init cls dflt a s = (Inr ds, s')"
  shows "next_id s \<le> next_id s' \<and> layer_ids ds \<subseteq> {next_id s..<next_id s'}"
proof -
  from assms have ok: "recognized_pooling (arg_pooling_fun a)"
    by (auto simp: DeepSet_init_eq split: if_splits)
  with assms show ?thesis
    by (auto simp: DeepSet_init_eq layer_ids_def)
qed

lemma InvariantNetwork_fresh_ids:
  assumes "InvariantNetwork dflt a s = (Inr ds, s')"
  shows "next_id s \<le> next_id s' \<and> layer_ids ds \<subseteq> {next_id s..<next_id s'}"
proof -
  let ?s = "s\<lparr>warnings := warnings s @
            [\<lparr>message = ''InvariantNetwork will be deprecated. at some point. Use ``DeepSet`` instead.'',
              category = DeprecationWarning, stacklevel = 2\<rparr>]\<rparr>"
  from assms have "DeepSet_init ''InvariantNetwork'' dflt a ?s = (Inr ds, s')"
    by (simp only: InvariantNetwork_eq)
  from DeepSet_init_fresh_ids [OF this] show ?thesis by simp
qed

text \<open>With \<^verbatim>\<open>DeepSet\<close> or \<^verbatim>\<open>InvariantNetwork\<close> as network type, two sub-networks of a
  \<^verbatim>\<open>SplitNetwork\<close> share no layer: each owns its own parameters.\<close>

lemma SplitNetwork_disjoint_parameters:
  assumes "SplitNetwork_init n cfg (DeepSet dflt) a s = (Inr sn, s')
         \<or> SplitNetwork_init n cfg (InvariantNetwork dflt) a s = (Inr sn, s')"
    and "i < j" and "j < n"
  shows "layer_ids (networks sn ! i) \<inter> layer_ids (networks sn ! j) = {}"
  using assms(1)
proof
  assume init: "SplitNetwork_init n cfg (DeepSet dflt) a s = (Inr sn, s')"
  from SplitNetwork_init_Inr [OF init]
  have len: "length (networks sn) = n"
    and run: "replicateC n (DeepSet dflt a) s = (Inr (networks sn), s')" by simp_all
  have step: "\<And>s ds s'. DeepSet dflt a s = (Inr ds, s') \<Longrightarrow>
        next_id s \<le> next_id s' \<and> layer_ids ds \<subseteq> {next_id s..<next_id s'}"
    unfolding DeepSet_def by (rule DeepSet_init_fresh_ids)
  from replicateC_fresh_ids [where ids = layer_ids and m = "DeepSet dflt a", OF step run]
  have "\<forall>i j. i < j \<and> j < length (networks sn) \<longrightarrow>
      layer_ids (networks sn ! i) \<inter> layer_ids (networks sn ! j) = {}" by simp
  with assms(2,3) len show ?thesis by simp
next
  assume init: "SplitNetwork_init n cfg (InvariantNetwork dflt) a s = (Inr sn, s')"
  from SplitNetwork_init_Inr [OF init]
  have len: "length (networks sn) = n"
    and run: "replicateC n (InvariantNetwork dflt a) s = (Inr (networks sn), s')" by simp_all
  from replicateC_fresh_ids [where ids = layer_ids and m = "InvariantNetwork dflt a",
      OF InvariantNetwork_fresh_ids run]
  have "\<forall>i j. i < j \<and> j < length (networks sn) \<longrightarrow>
      layer_ids (networks sn ! i) \<inter> layer_ids (networks sn ! j) = {}" by simp
  with assms(2,3) len show ?thesis by simp
qed

end
